theory Spec2Isabelle
  imports Complex_Main
begin

text \<open>
  A model of the deterministic core of \<open>src/services/conciliacao.service.js\<close>:
  \<open>normalizarTexto\<close>, \<open>fornecedorExisteNaRazao\<close>, \<open>extrairLinhasFornecedor\<close>,
  \<open>parseValorMonetario\<close> and \<open>montarIndicadoresFornecedor\<close>, each as a function of the
  same name, followed by the properties that the specification states about them.
\<close>

section \<open>Strings of the host language\<close>

text \<open>
  A JavaScript string is a sequence of UTF-16 code units. A code unit is modelled by its
  number (a \<open>nat\<close> below 65536); a string is the list of its code units. A value that
  may be \<open>null\<close> or \<open>undefined\<close> is an \<open>option\<close>, with \<open>None\<close> for both.
\<close>

type_synonym jsstring = "nat list"

definition js :: "string \<Rightarrow> jsstring" where
  "js s = map of_char s"

text \<open>The character classes of the regular expressions in \<open>conciliacao.service.js\<close>
  (none of them carries the \<open>u\<close> or \<open>i\<close> flag, so they work on single code units).\<close>

definition is_digit :: "nat \<Rightarrow> bool" where
  \<comment> \<open>\<open>\d\<close>\<close>
  "is_digit c = (48 \<le> c \<and> c \<le> 57)"

definition is_word :: "nat \<Rightarrow> bool" where
  \<comment> \<open>\<open>\w\<close>, that is \<open>[A-Za-z0-9_]\<close>\<close>
  "is_word c = (is_digit c \<or> (65 \<le> c \<and> c \<le> 90) \<or> (97 \<le> c \<and> c \<le> 122) \<or> c = 95)"

definition is_space :: "nat \<Rightarrow> bool" where
  \<comment> \<open>\<open>\s\<close>: WhiteSpace and LineTerminator of ECMAScript; also what \<open>trim\<close> strips\<close>
  "is_space c = (c = 9 \<or> c = 10 \<or> c = 11 \<or> c = 12 \<or> c = 13 \<or> c = 32 \<or> c = 160
     \<or> c = 5760 \<or> (8192 \<le> c \<and> c \<le> 8202) \<or> c = 8232 \<or> c = 8233 \<or> c = 8239
     \<or> c = 8287 \<or> c = 12288 \<or> c = 65279)"

definition is_mark :: "nat \<Rightarrow> bool" where
  \<comment> \<open>the combining marks U+0300 to U+036F\<close>
  "is_mark c = (768 \<le> c \<and> c \<le> 879)"

definition is_crlf :: "nat \<Rightarrow> bool" where
  \<comment> \<open>\<open>[\r\n]\<close>\<close>
  "is_crlf c = (c = 13 \<or> c = 10)"

text \<open>\<open>s.replace(/[p]+/g, " ")\<close>: every maximal run of code units of the class \<open>p\<close>
  becomes one space.\<close>

function replace_runs :: "(nat \<Rightarrow> bool) \<Rightarrow> jsstring \<Rightarrow> jsstring" where
  "replace_runs p [] = []"
| "replace_runs p (c # cs) =
     (if p c then 32 # replace_runs p (dropWhile p cs) else c # replace_runs p cs)"
  by pat_completeness auto
termination
  by (relation "measure (\<lambda>(p, s). length s)")
     (auto simp: le_imp_less_Suc length_dropWhile_le)

definition trim :: "jsstring \<Rightarrow> jsstring" where
  \<comment> \<open>\<open>String.prototype.trim\<close>\<close>
  "trim s = rev (dropWhile is_space (rev (dropWhile is_space s)))"

definition lower_unit :: "nat \<Rightarrow> nat" where
  "lower_unit c = (if 65 \<le> c \<and> c \<le> 90 then c + 32 else c)"

definition toLowerCase :: "jsstring \<Rightarrow> jsstring" where
  \<comment> \<open>\<open>String.prototype.toLowerCase\<close> on the strings that reach it in \<open>normalizarTexto\<close>:
      they hold only \<open>[A-Za-z0-9_ ]\<close> (lemma \<open>before_lowercase_alphabet\<close>), where the
      Unicode case mapping is the ASCII one.\<close>
  "toLowerCase s = map lower_unit s"

section \<open>normalizarTexto\<close>

text \<open>
  \<open>String.prototype.normalize("NFD")\<close> is the engine's canonical decomposition; its table is
  not part of the repository, so the decomposition is a parameter \<open>nfd\<close> of the model and
  the theorems hold for every such function.
\<close>

definition normalizarTexto :: "(jsstring \<Rightarrow> jsstring) \<Rightarrow> jsstring option \<Rightarrow> jsstring" where
  "normalizarTexto nfd str =
     (case str of
        None \<Rightarrow> []
      | Some s \<Rightarrow>
          if s = [] then []
          else toLowerCase (trim (map (\<lambda>c. if is_word c \<or> is_space c then c else 32)
                 (replace_runs is_space (replace_runs is_crlf
                    (filter (\<lambda>c. \<not> is_mark c) (nfd s)))))))"

definition nfd_ascii :: "jsstring \<Rightarrow> jsstring" where
  \<comment> \<open>Canonical decomposition restricted to strings of ASCII code units, which it leaves
      unchanged. Used only to evaluate the model at ASCII inputs.\<close>
  "nfd_ascii s = s"

definition falsy :: "jsstring option \<Rightarrow> bool" where
  \<comment> \<open>\<open>!x\<close> for a string that may be \<open>null\<close>\<close>
  "falsy x = (x = None \<or> x = Some [])"

section \<open>String helpers: includes, split\<close>

fun starts_with :: "jsstring \<Rightarrow> jsstring \<Rightarrow> bool" where
  "starts_with s [] = True"
| "starts_with [] (t # ts) = False"
| "starts_with (c # cs) (t # ts) = (c = t \<and> starts_with cs ts)"

fun str_includes :: "jsstring \<Rightarrow> jsstring \<Rightarrow> bool" where
  \<comment> \<open>\<open>s.includes(t)\<close>\<close>
  "str_includes [] t = (t = [])"
| "str_includes (c # cs) t = (starts_with (c # cs) t \<or> str_includes cs t)"

fun cons_first :: "nat \<Rightarrow> jsstring list \<Rightarrow> jsstring list" where
  "cons_first c [] = [[c]]"
| "cons_first c (p # ps) = (c # p) # ps"

fun split_on :: "nat \<Rightarrow> jsstring \<Rightarrow> jsstring list" where
  \<comment> \<open>\<open>s.split(d)\<close> for a one-unit separator\<close>
  "split_on d [] = [[]]"
| "split_on d (c # cs) = (if c = d then [] # split_on d cs else cons_first c (split_on d cs))"

fun split_lines :: "jsstring \<Rightarrow> jsstring list" where
  \<comment> \<open>\<open>s.split(/\r?\n/)\<close>\<close>
  "split_lines [] = [[]]"
| "split_lines [c] = (if c = 10 then [[], []] else [[c]])"
| "split_lines (c # d # cs) =
     (if c = 13 \<and> d = 10 then [] # split_lines cs
      else if c = 10 then [] # split_lines (d # cs)
      else cons_first c (split_lines (d # cs)))"

definition tokensAlvo :: "jsstring \<Rightarrow> jsstring list" where
  \<comment> \<open>\<open>alvo.split(" ").map((t) => t.trim()).filter((t) => t.length > 2)\<close>\<close>
  "tokensAlvo alvo = filter (\<lambda>t. 2 < length t) (map trim (split_on 32 alvo))"

section \<open>Numbers\<close>

text \<open>
  A JavaScript Number is an IEEE 754 binary64 value. A finite one is modelled by the
  rational it denotes (the two zeros are identified; they are \<open>===\<close>-equal), and every
  arithmetic result is rounded to the nearest binary64 value, ties to even, by
  \<open>to_double\<close>.
\<close>

datatype number = Finite rat | PosInf | NegInf | NaN

definition pow2 :: "int \<Rightarrow> rat" where
  "pow2 e = (if 0 \<le> e then 2 ^ nat e else 1 / 2 ^ nat (- e))"

function bit_length :: "int \<Rightarrow> int" where
  "bit_length n = (if n \<le> 0 then 0 else bit_length (n div 2) + 1)"
  by pat_completeness auto
termination
  by (relation "measure nat") auto

declare bit_length.simps [simp del]

definition floor_log2 :: "rat \<Rightarrow> int" where
  \<comment> \<open>for \<open>0 < q\<close>: the \<open>k\<close> with \<open>2 ^ k \<le> q < 2 ^ (k + 1)\<close>\<close>
  "floor_log2 q = (if 1 \<le> q then bit_length \<lfloor>q\<rfloor> - 1
                   else - bit_length (- \<lfloor>- (1 / q)\<rfloor> - 1))"

definition round_half_even :: "rat \<Rightarrow> int" where
  "round_half_even x = (let f = \<lfloor>x\<rfloor>; r = x - of_int f in
      if r < 1 / 2 then f else if 1 / 2 < r then f + 1 else if even f then f else f + 1)"

definition to_double :: "rat \<Rightarrow> number" where
  \<comment> \<open>53 bits of precision, least exponent \<open>-1074\<close>, overflow at \<open>2 ^ 1024\<close>\<close>
  "to_double q =
     (if q = 0 then Finite 0
      else let a = \<bar>q\<bar>;
               e = max (floor_log2 a - 52) (- 1074);
               v = of_int (round_half_even (a / pow2 e)) * pow2 e
           in if pow2 1024 \<le> v then (if 0 < q then PosInf else NegInf)
              else Finite (if 0 < q then v else - v))"

definition isFinite :: "number \<Rightarrow> bool" where
  \<comment> \<open>\<open>Number.isFinite\<close>\<close>
  "isFinite x = (case x of Finite q \<Rightarrow> True | _ \<Rightarrow> False)"

fun js_neg :: "number \<Rightarrow> number" where
  "js_neg (Finite q) = Finite (- q)"
| "js_neg PosInf = NegInf"
| "js_neg NegInf = PosInf"
| "js_neg NaN = NaN"

fun js_add :: "number \<Rightarrow> number \<Rightarrow> number" where
  \<comment> \<open>\<open>a + b\<close>\<close>
  "js_add (Finite a) (Finite b) = to_double (a + b)"
| "js_add NaN y = NaN"
| "js_add x NaN = NaN"
| "js_add PosInf NegInf = NaN"
| "js_add NegInf PosInf = NaN"
| "js_add PosInf y = PosInf"
| "js_add NegInf y = NegInf"
| "js_add x PosInf = PosInf"
| "js_add x NegInf = NegInf"

definition js_sub :: "number \<Rightarrow> number \<Rightarrow> number" where
  \<comment> \<open>\<open>a - b\<close>\<close>
  "js_sub a b = js_add a (js_neg b)"

fun js_div :: "number \<Rightarrow> number \<Rightarrow> number" where
  \<comment> \<open>\<open>a / b\<close>; a zero divisor is taken as \<open>+0\<close>\<close>
  "js_div (Finite a) (Finite b) =
     (if b = 0 then (if a = 0 then NaN else if 0 < a then PosInf else NegInf)
      else to_double (a / b))"
| "js_div NaN y = NaN"
| "js_div x NaN = NaN"
| "js_div (Finite a) y = Finite 0"
| "js_div PosInf (Finite b) = (if 0 \<le> b then PosInf else NegInf)"
| "js_div NegInf (Finite b) = (if 0 \<le> b then NegInf else PosInf)"
| "js_div x y = NaN"

fun js_le :: "number \<Rightarrow> number \<Rightarrow> bool" where
  \<comment> \<open>\<open>a <= b\<close>\<close>
  "js_le NaN y = False"
| "js_le x NaN = False"
| "js_le (Finite a) (Finite b) = (a \<le> b)"
| "js_le NegInf y = True"
| "js_le x PosInf = True"
| "js_le x y = False"

definition js_ge :: "number \<Rightarrow> number \<Rightarrow> bool" where
  \<comment> \<open>\<open>a >= b\<close>\<close>
  "js_ge a b = js_le b a"

fun Math_abs :: "number \<Rightarrow> number" where
  "Math_abs (Finite q) = Finite \<bar>q\<bar>"
| "Math_abs PosInf = PosInf"
| "Math_abs NegInf = PosInf"
| "Math_abs NaN = NaN"

definition min2 :: "number \<Rightarrow> number \<Rightarrow> number" where
  "min2 a b = (if a = NaN \<or> b = NaN then NaN else if js_le b a then b else a)"

definition max2 :: "number \<Rightarrow> number \<Rightarrow> number" where
  "max2 a b = (if a = NaN \<or> b = NaN then NaN else if js_le a b then b else a)"

definition Math_min :: "number list \<Rightarrow> number" where
  \<comment> \<open>the value of \<open>Math.min\<close> on the arguments \<open>xs\<close>; \<open>Infinity\<close> for no argument\<close>
  "Math_min xs = foldl min2 PosInf xs"

definition Math_max :: "number list \<Rightarrow> number" where
  \<comment> \<open>the value of \<open>Math.max\<close> on the arguments \<open>xs\<close>; \<open>-Infinity\<close> for no argument\<close>
  "Math_max xs = foldl max2 NegInf xs"

text \<open>
  The exceptions that the core can raise. A call \<open>f(...xs)\<close> passes each element of the
  array \<open>xs\<close> as one argument; an engine takes only so many arguments in one call and
  raises a \<open>RangeError\<close> above that number. The number is the engine's (on the order of
  \<open>10 ^ 5\<close>), not the program's, so it is the parameter \<open>limite\<close> here.
\<close>

datatype erro = TypeError | RangeError

definition spread_call ::
  "nat \<Rightarrow> (number list \<Rightarrow> number) \<Rightarrow> number list \<Rightarrow> erro + number" where
  \<comment> \<open>\<open>f(...xs)\<close>\<close>
  "spread_call limite f xs = (if limite < length xs then Inl RangeError else Inr (f xs))"

definition toFixed2_Number :: "number \<Rightarrow> number" where
  \<comment> \<open>\<open>Number(x.toFixed(2))\<close>. For \<open>\<bar>x\<bar> < 10 ^ 21\<close>, \<open>toFixed(2)\<close> prints \<open>n / 100\<close>
      for the integer \<open>n\<close> nearest to \<open>100 * \<bar>x\<bar>\<close> (the larger one on a tie), with the
      sign of \<open>x\<close>, and \<open>Number\<close> reads that decimal back. From \<open>10 ^ 21\<close> on, and for
      the infinities and \<open>NaN\<close>, \<open>toFixed\<close> prints what \<open>String(x)\<close> prints, which
      \<open>Number\<close> reads back as \<open>x\<close>.\<close>
  "toFixed2_Number x =
     (case x of
        Finite q \<Rightarrow>
          if 10 ^ 21 \<le> \<bar>q\<bar> then Finite q
          else let n = \<lfloor>\<bar>q\<bar> * 100 + 1 / 2\<rfloor>
               in to_double ((if q < 0 then - 1 else 1) * of_int n / 100)
      | _ \<Rightarrow> x)"

section \<open>parseValorMonetario\<close>

definition digits_value :: "jsstring \<Rightarrow> nat" where
  "digits_value ds = foldl (\<lambda>a c. 10 * a + (c - 48)) 0 ds"

definition parseFloat :: "jsstring \<Rightarrow> number" where
  \<comment> \<open>\<open>Number.parseFloat\<close> on the strings that reach it in \<open>parseValorMonetario\<close>: they
      hold only digits, \<open>,\<close>, \<open>-\<close> and \<open>.\<close> (lemma \<open>limpo_alphabet\<close>), so of the
      decimal literal grammar only the sign \<open>-\<close>, the digits and the point can occur.
      The longest prefix that is a decimal literal is read, and its value is rounded to the
      nearest Number; \<open>NaN\<close> when there is no such prefix.\<close>
  "parseFloat s =
     (let neg = (s \<noteq> [] \<and> hd s = 45);
          r = (if neg then tl s else s);
          ip = takeWhile is_digit r;
          r2 = drop (length ip) r;
          fp = (if r2 \<noteq> [] \<and> hd r2 = 46 then takeWhile is_digit (tl r2) else [])
      in if ip = [] \<and> fp = [] then NaN
         else let mv = of_nat (digits_value (ip @ fp)) / 10 ^ length fp
              in to_double (if neg then - mv else mv))"

fun replace_first :: "nat \<Rightarrow> nat \<Rightarrow> jsstring \<Rightarrow> jsstring" where
  \<comment> \<open>\<open>s.replace(a, b)\<close> with a string pattern: only the first occurrence\<close>
  "replace_first a b [] = []"
| "replace_first a b (c # cs) = (if c = a then b # cs else c # replace_first a b cs)"

definition limpo :: "jsstring \<Rightarrow> jsstring" where
  \<comment> \<open>\<open>String(valorStr).replace(/\./g, "").replace(/[^\d,-]/g, "").replace(",", ".")\<close>\<close>
  "limpo s = replace_first 44 46
     (filter (\<lambda>c. is_digit c \<or> c = 44 \<or> c = 45) (filter (\<lambda>c. c \<noteq> 46) s))"

definition parseValorMonetario :: "jsstring option \<Rightarrow> number option" where
  "parseValorMonetario valorStr =
     (if falsy valorStr then None
      else let num = parseFloat (limpo (the valorStr))
           in if isFinite num then Some num else None)"

section \<open>fornecedorExisteNaRazao\<close>

definition encontrados :: "jsstring list \<Rightarrow> jsstring \<Rightarrow> nat" where
  \<comment> \<open>the inner loop: how many tokens the line includes\<close>
  "encontrados tokens linha = length (filter (\<lambda>token. str_includes linha token) tokens)"

definition score_linha :: "jsstring list \<Rightarrow> jsstring \<Rightarrow> number" where
  \<comment> \<open>\<open>encontrados / tokensAlvo.length\<close>\<close>
  "score_linha tokens linha =
     js_div (Finite (of_nat (encontrados tokens linha))) (Finite (of_nat (length tokens)))"

fun alguma_linha :: "jsstring list \<Rightarrow> jsstring list \<Rightarrow> bool" where
  \<comment> \<open>the loop over \<open>linhas\<close>: returns at the first line with \<open>score >= 0.7\<close>\<close>
  "alguma_linha tokens [] = False"
| "alguma_linha tokens (linha # linhas) =
     (if js_ge (score_linha tokens linha) (to_double (7 / 10)) then True
      else alguma_linha tokens linhas)"

definition fornecedorExisteNaRazao ::
  "(jsstring \<Rightarrow> jsstring) \<Rightarrow> jsstring option \<Rightarrow> jsstring option \<Rightarrow> bool" where
  "fornecedorExisteNaRazao nfd nomeFornecedor textoRazaoBruto =
     (if falsy nomeFornecedor \<or> falsy textoRazaoBruto then False
      else let alvo = normalizarTexto nfd nomeFornecedor in
        if alvo = [] then False
        else let textoNormalizado = normalizarTexto nfd textoRazaoBruto in
          if str_includes textoNormalizado alvo then True
          else let tokens = tokensAlvo alvo in
            if length tokens = 0 then False
            else let linhas = filter (\<lambda>l. l \<noteq> [])
                       (map (\<lambda>linha. normalizarTexto nfd (Some linha))
                          (split_lines (the textoRazaoBruto)))
                 in alguma_linha tokens linhas)"

section \<open>extrairLinhasFornecedor\<close>

text \<open>
  The pattern \<open>/(\d{1,3}(?:\.\d{3})*,\d{2})/g\<close>, matched the way a backtracking engine
  does: each part lists the lengths it can consume, the preferred one first, and the
  match is the first combination that goes through.
\<close>

definition match_digits :: "nat \<Rightarrow> nat \<Rightarrow> jsstring \<Rightarrow> nat list" where
  \<comment> \<open>\<open>\d{lo,hi}\<close>, greedy\<close>
  "match_digits lo hi s = rev [lo ..< Suc (length (takeWhile is_digit (take hi s)))]"

definition group_at :: "jsstring \<Rightarrow> bool" where
  \<comment> \<open>\<open>\.\d{3}\<close> matches at the start of \<open>s\<close>\<close>
  "group_at s = (s \<noteq> [] \<and> hd s = 46 \<and> match_digits 3 3 (tl s) \<noteq> [])"

function groups_star :: "jsstring \<Rightarrow> nat list" where
  \<comment> \<open>\<open>(?:\.\d{3})*\<close>, greedy: one more group first, none last\<close>
  "groups_star s =
     (if group_at s then map (\<lambda>n. n + 4) (groups_star (drop 4 s)) @ [0] else [0])"
  by pat_completeness auto
termination
  by (relation "measure length") (auto simp: group_at_def)

declare groups_star.simps [simp del]

definition tail_at :: "jsstring \<Rightarrow> bool" where
  \<comment> \<open>\<open>,\d{2}\<close> matches at the start of \<open>s\<close>\<close>
  "tail_at s = (s \<noteq> [] \<and> hd s = 44 \<and> match_digits 2 2 (tl s) \<noteq> [])"

definition candidatos_valor :: "jsstring \<Rightarrow> nat list" where
  \<comment> \<open>the lengths of all the ways the whole pattern matches at the start of \<open>s\<close>, in
      the order in which backtracking reaches them\<close>
  "candidatos_valor s =
     concat (map (\<lambda>n1. concat (map (\<lambda>n2.
              if tail_at (drop (n1 + n2) s) then [n1 + n2 + 3] else [])
            (groups_star (drop n1 s)))) (match_digits 1 3 s))"

definition match_valor :: "jsstring \<Rightarrow> nat option" where
  \<comment> \<open>the length of the match that starts at the first unit of \<open>s\<close>, if there is one\<close>
  "match_valor s = (case candidatos_valor s of [] \<Rightarrow> None | n # _ \<Rightarrow> Some n)"

function regexValor_all :: "jsstring \<Rightarrow> jsstring list" where
  \<comment> \<open>the \<open>while ((m = regexValor.exec(linhaOriginal)) !== null)\<close> loop: the matches from
      left to right, each search starting where the last match ended\<close>
  "regexValor_all s =
     (if s = [] then []
      else case match_valor s of
             Some n \<Rightarrow> take n s # regexValor_all (drop n s)
           | None \<Rightarrow> regexValor_all (tl s))"
  by pat_completeness auto
termination
proof (relation "measure length")
  show "wf (measure length)" by simp
next
  fix s :: jsstring and n
  assume "s \<noteq> []" and "match_valor s = Some n"
  then have "n \<in> set (candidatos_valor s)"
    by (auto simp: match_valor_def split: list.splits)
  then have "3 \<le> n"
    by (auto simp: candidatos_valor_def split: if_splits)
  with \<open>s \<noteq> []\<close> show "(drop n s, s) \<in> measure length" by simp
next
  fix s :: jsstring
  assume "s \<noteq> []"
  then show "(tl s, s) \<in> measure length" by simp
qed

declare regexValor_all.simps [simp del]

record linha_fornecedor =
  linhaOriginal :: jsstring
  linhaNormalizada :: jsstring
  scoreMatch :: number
  numerosMonetarios :: "jsstring list"
  ultimoNumero :: "jsstring option"

definition linha_resultado :: "jsstring \<Rightarrow> jsstring \<Rightarrow> number \<Rightarrow> linha_fornecedor" where
  \<comment> \<open>the object pushed to \<open>resultado\<close> for an accepted line\<close>
  "linha_resultado linhaOrig linhaNorm score =
     (let numeros = regexValor_all linhaOrig
      in \<lparr> linhaOriginal = trim linhaOrig,
           linhaNormalizada = linhaNorm,
           scoreMatch = score,
           numerosMonetarios = numeros,
           ultimoNumero = (if numeros \<noteq> [] then Some (last numeros) else None) \<rparr>)"

fun linhas_loop ::
  "(jsstring \<Rightarrow> jsstring) \<Rightarrow> jsstring list \<Rightarrow> jsstring list \<Rightarrow> linha_fornecedor list" where
  \<comment> \<open>the loop over \<open>linhas\<close>\<close>
  "linhas_loop nfd tokens [] = []"
| "linhas_loop nfd tokens (linhaOrig # linhas) =
     (let linhaNorm = normalizarTexto nfd (Some linhaOrig) in
      if linhaNorm = [] then linhas_loop nfd tokens linhas
      else let score = (if length tokens \<noteq> 0 then score_linha tokens linhaNorm else Finite 0) in
        if js_ge score (to_double (6 / 10))
        then linha_resultado linhaOrig linhaNorm score # linhas_loop nfd tokens linhas
        else linhas_loop nfd tokens linhas)"

definition extrairLinhasFornecedor ::
  "(jsstring \<Rightarrow> jsstring) \<Rightarrow> jsstring option \<Rightarrow> jsstring option \<Rightarrow> linha_fornecedor list" where
  "extrairLinhasFornecedor nfd textoBruto nomeFornecedor =
     (if falsy textoBruto \<or> falsy nomeFornecedor then []
      else let alvoNorm = normalizarTexto nfd nomeFornecedor in
        if alvoNorm = [] then []
        else let tokens = tokensAlvo alvoNorm in
          if length tokens = 0 then []
          else linhas_loop nfd tokens (split_lines (the textoBruto)))"

section \<open>montarIndicadoresFornecedor\<close>

record saldo_encontrado =
  texto :: jsstring
  numero :: number
  linhaOriginal_saldo :: jsstring

record indicador =
  linhasFornecedor :: "linha_fornecedor list"
  saldosEncontrados :: "saldo_encontrado list"

datatype status_saldo = dados_insuficientes | saldos_iguais | saldos_diferentes

text \<open>The \<open>descricao\<close> of the evaluation is a fixed text for each status and is left out.\<close>

record avaliacao =
  status :: status_saldo
  valorReferenciaAproximado :: "number option"

record indicadores_resultado =
  indicadoresFornecedor :: "jsstring \<rightharpoonup> indicador"
  avaliacaoAutomaticaSaldo :: avaliacao

definition chavesRelatorios :: "jsstring list" where
  "chavesRelatorios = [js ''balancete'', js ''contas_pagar'', js ''razao'']"

fun saldos_loop :: "linha_fornecedor list \<Rightarrow> saldo_encontrado list" where
  \<comment> \<open>the loop over \<open>linhasFornecedor\<close> that fills \<open>saldosEncontrados\<close>\<close>
  "saldos_loop [] = []"
| "saldos_loop (linha # linhas) =
     (if falsy (ultimoNumero linha) then saldos_loop linhas
      else case parseValorMonetario (ultimoNumero linha) of
             None \<Rightarrow> saldos_loop linhas
           | Some valorNum \<Rightarrow>
               \<lparr> texto = the (ultimoNumero linha), numero = valorNum,
                 linhaOriginal_saldo = linhaOriginal linha \<rparr> # saldos_loop linhas)"

definition obj_set :: "jsstring \<Rightarrow> 'v \<Rightarrow> (jsstring \<times> 'v) list \<Rightarrow> (jsstring \<times> 'v) list" where
  \<comment> \<open>\<open>obj[k] = v\<close> on an object kept as the list of its entries in \<open>Object.keys\<close> order:
      a present key keeps its place, a new one goes last\<close>
  "obj_set k v obj =
     (if k \<in> fst ` set obj then map (\<lambda>(k', v'). if k' = k then (k', v) else (k', v')) obj
      else obj @ [(k, v)])"

definition relatorio_step ::
  "(jsstring \<Rightarrow> jsstring) \<Rightarrow> jsstring option \<Rightarrow> (jsstring \<rightharpoonup> jsstring) \<Rightarrow>
   (jsstring \<rightharpoonup> indicador) \<times> (jsstring \<times> number list) list \<Rightarrow> jsstring \<Rightarrow>
   (jsstring \<rightharpoonup> indicador) \<times> (jsstring \<times> number list) list" where
  \<comment> \<open>one round of the loop over \<open>chavesRelatorios\<close>; the state is
      \<open>(indicadoresFornecedor, saldosNumericosPorRelatorio)\<close>\<close>
  "relatorio_step nfd fornecedor textosPorRelatorio st chave =
     (let texto = (if falsy (textosPorRelatorio chave) then [] else the (textosPorRelatorio chave));
          linhas = extrairLinhasFornecedor nfd (Some texto) fornecedor;
          saldos = saldos_loop linhas;
          saldosNumericos = (if 0 < length saldos then obj_set chave (map numero saldos) (snd st)
                             else snd st)
      in ((fst st)(chave \<mapsto> \<lparr> linhasFornecedor = linhas, saldosEncontrados = saldos \<rparr>),
          saldosNumericos))"

definition avaliar :: "(jsstring \<times> number list) list \<Rightarrow> avaliacao" where
  \<comment> \<open>the automatic evaluation, from \<open>saldosNumericosPorRelatorio\<close>: the value it has
      when the calls \<open>Math.min(...todosValores)\<close> and \<open>Math.max(...todosValores)\<close> return\<close>
  "avaliar saldosNumericosPorRelatorio =
     (let todasChavesComSaldo = map fst saldosNumericosPorRelatorio in
      if 2 \<le> length todasChavesComSaldo then
        let todosValores = concat (map (\<lambda>k. case map_of saldosNumericosPorRelatorio k of
                                                 Some vs \<Rightarrow> vs | None \<Rightarrow> [])
                                     todasChavesComSaldo);
            mn = Math_min todosValores;
            mx = Math_max todosValores
        in if isFinite mn \<and> isFinite mx then
             let diff = Math_abs (js_sub mx mn) in
             if js_le diff (to_double (1 / 10))
             then \<lparr> status = saldos_iguais,
                    valorReferenciaAproximado =
                      Some (toFixed2_Number (js_div (js_add mn mx) (Finite 2))) \<rparr>
             else \<lparr> status = saldos_diferentes, valorReferenciaAproximado = None \<rparr>
           else \<lparr> status = dados_insuficientes, valorReferenciaAproximado = None \<rparr>
      else \<lparr> status = dados_insuficientes, valorReferenciaAproximado = None \<rparr>)"

definition montarIndicadoresFornecedor ::
  "(jsstring \<Rightarrow> jsstring) \<Rightarrow> jsstring option \<Rightarrow> (jsstring \<rightharpoonup> jsstring) \<Rightarrow>
   indicadores_resultado" where
  "montarIndicadoresFornecedor nfd fornecedor textosPorRelatorio =
     (let st = foldl (relatorio_step nfd fornecedor textosPorRelatorio) (Map.empty, [])
                 chavesRelatorios
      in \<lparr> indicadoresFornecedor = fst st, avaliacaoAutomaticaSaldo = avaliar (snd st) \<rparr>)"

text \<open>
  \<open>avaliar\<close> and \<open>montarIndicadoresFornecedor\<close> above give the value that the function
  returns for a mapping that is an object. The two definitions below follow the same
  lines of the source and keep the two ways in which the call does not return: the
  spread calls of \<open>Math.min\<close> and \<open>Math.max\<close> on \<open>todosValores\<close>, and the read
  \<open>textosPorRelatorio[chave]\<close> of the first round of the loop, which raises a
  \<open>TypeError\<close> when the mapping is \<open>null\<close> (\<open>None\<close> here; the default \<open>{}\<close> of the
  parameter replaces only \<open>undefined\<close>).
\<close>

definition avaliar_call :: "nat \<Rightarrow> (jsstring \<times> number list) list \<Rightarrow> erro + avaliacao" where
  "avaliar_call limite saldosNumericosPorRelatorio =
     (let todasChavesComSaldo = map fst saldosNumericosPorRelatorio in
      if 2 \<le> length todasChavesComSaldo then
        let todosValores = concat (map (\<lambda>k. case map_of saldosNumericosPorRelatorio k of
                                                 Some vs \<Rightarrow> vs | None \<Rightarrow> [])
                                     todasChavesComSaldo)
        in case spread_call limite Math_min todosValores of
             Inl e \<Rightarrow> Inl e
           | Inr mn \<Rightarrow>
              (case spread_call limite Math_max todosValores of
                 Inl e \<Rightarrow> Inl e
               | Inr mx \<Rightarrow>
                   Inr (if isFinite mn \<and> isFinite mx then
                          let diff = Math_abs (js_sub mx mn) in
                          if js_le diff (to_double (1 / 10))
                          then \<lparr> status = saldos_iguais,
                                 valorReferenciaAproximado =
                                   Some (toFixed2_Number (js_div (js_add mn mx) (Finite 2))) \<rparr>
                          else \<lparr> status = saldos_diferentes, valorReferenciaAproximado = None \<rparr>
                        else \<lparr> status = dados_insuficientes, valorReferenciaAproximado = None \<rparr>))
      else Inr \<lparr> status = dados_insuficientes, valorReferenciaAproximado = None \<rparr>)"

definition montarIndicadoresFornecedor_call ::
  "nat \<Rightarrow> (jsstring \<Rightarrow> jsstring) \<Rightarrow> jsstring option \<Rightarrow> (jsstring \<rightharpoonup> jsstring) option \<Rightarrow>
   erro + indicadores_resultado" where
  "montarIndicadoresFornecedor_call limite nfd fornecedor textosPorRelatorio =
     (case textosPorRelatorio of
        None \<Rightarrow> Inl TypeError
      | Some textos \<Rightarrow>
          let st = foldl (relatorio_step nfd fornecedor textos) (Map.empty, []) chavesRelatorios
          in case avaliar_call limite (snd st) of
               Inl e \<Rightarrow> Inl e
             | Inr a \<Rightarrow> Inr \<lparr> indicadoresFornecedor = fst st, avaliacaoAutomaticaSaldo = a \<rparr>)"

section \<open>Reading the result\<close>

text \<open>
  What the specification calls the parsed balances of a source, the present sources, the
  pooled balances and their minimum and maximum, read off the value that
  \<open>montarIndicadoresFornecedor\<close> returns.
\<close>

definition parsed_balances :: "indicadores_resultado \<Rightarrow> jsstring \<Rightarrow> number list" where
  "parsed_balances r k =
     (case indicadoresFornecedor r k of
        None \<Rightarrow> []
      | Some i \<Rightarrow> map numero (saldosEncontrados i))"

definition present :: "indicadores_resultado \<Rightarrow> jsstring list" where
  "present r = filter (\<lambda>k. parsed_balances r k \<noteq> []) chavesRelatorios"

definition pooled :: "indicadores_resultado \<Rightarrow> number list" where
  "pooled r = concat (map (parsed_balances r) (present r))"

fun rat_of :: "number \<Rightarrow> rat" where
  "rat_of (Finite q) = q"
| "rat_of PosInf = 0"
| "rat_of NegInf = 0"
| "rat_of NaN = 0"

definition pooled_min :: "indicadores_resultado \<Rightarrow> number" where
  "pooled_min r = Finite (Min (rat_of ` set (pooled r)))"

definition pooled_max :: "indicadores_resultado \<Rightarrow> number" where
  "pooled_max r = Finite (Max (rat_of ` set (pooled r)))"

text \<open>The texts of the end-to-end example: a ledger line and a payables line for the
  same vendor, and no balance summary.\<close>

definition textos_acme :: "jsstring \<rightharpoonup> jsstring" where
  "textos_acme =
     [js ''razao'' \<mapsto> js ''ACME DISTRIBUIDORA LTDA 10/2024 42.151,99'',
      js ''contas_pagar'' \<mapsto> js ''acme distribuidora - saldo 42.152,00'']"

text \<open>Two sources whose balances for the vendor, \<open>1.000,10\<close> and \<open>1.000,00\<close>, differ by
  ten cents.\<close>

definition textos_limite :: "jsstring \<rightharpoonup> jsstring" where
  "textos_limite =
     [js ''razao'' \<mapsto> js ''acme 1.000,10'', js ''contas_pagar'' \<mapsto> js ''acme 1.000,00'']"

text \<open>Two sources of \<open>n\<close> lines each, every line naming the vendor with the balance
  \<open>1,00\<close>.\<close>

definition linhas_acme :: "nat \<Rightarrow> jsstring" where
  "linhas_acme n = concat (replicate n (js ''acme 1,00'' @ [10]))"

definition textos_linhas :: "nat \<Rightarrow> jsstring \<rightharpoonup> jsstring" where
  "textos_linhas n = [js ''contas_pagar'' \<mapsto> linhas_acme n, js ''razao'' \<mapsto> linhas_acme n]"

section \<open>Evaluation on numerals\<close>

lemmas unit_classes = is_digit_def is_word_def is_space_def is_mark_def is_crlf_def lower_unit_def

lemma floor_rat_numeral [simp]:
  "\<lfloor>numeral a / numeral b :: rat\<rfloor> = numeral a div numeral b"
  by (metis floor_divide_of_int_eq of_int_numeral)

lemma floor_rat_neg_numeral [simp]:
  "\<lfloor>- (numeral a / numeral b :: rat)\<rfloor> = - numeral a div numeral b"
  by (metis divide_minus_left floor_divide_of_int_eq of_int_neg_numeral of_int_numeral)

lemma floor_log2_42151_99: "floor_log2 (4215199 / 100) = 15"
  by (simp add: floor_log2_def bit_length.simps)

lemma double_42151_99: "to_double (4215199 / 100) = Finite (5793325392362209 / 137438953472)"
  by (simp add: to_double_def floor_log2_42151_99 pow2_def round_half_even_def Let_def)



lemma floor_log2_1_23: "floor_log2 (123 / 100) = 0"
  by (simp add: floor_log2_def bit_length.simps)

lemma double_1_23: "to_double (123 / 100) = Finite (2769713770832855 / 2251799813685248)"
  by (simp add: to_double_def floor_log2_1_23 pow2_def round_half_even_def Let_def)

section \<open>Substrings, pieces and tokens\<close>

lemma normalizarTexto_falsy: "falsy s \<Longrightarrow> normalizarTexto nfd s = []"
  by (auto simp: falsy_def normalizarTexto_def)

lemma starts_with_iff: "starts_with s t \<longleftrightarrow> (\<exists>ss. s = t @ ss)"
  by (induction s t rule: starts_with.induct) auto

lemma str_includes_iff: "str_includes s t \<longleftrightarrow> (\<exists>ps ss. s = ps @ t @ ss)"
proof (induction s)
  case Nil
  then show ?case by simp
next
  case (Cons c cs)
  show ?case
  proof
    assume "str_includes (c # cs) t"
    then consider "starts_with (c # cs) t" | "str_includes cs t" by auto
    then show "\<exists>ps ss. c # cs = ps @ t @ ss"
    proof cases
      case 1
      then obtain ss where "c # cs = t @ ss" by (auto simp: starts_with_iff)
      then have "c # cs = [] @ t @ ss" by simp
      then show ?thesis by blast
    next
      case 2
      then obtain ps ss where "cs = ps @ t @ ss" using Cons.IH by auto
      then have "c # cs = (c # ps) @ t @ ss" by simp
      then show ?thesis by blast
    qed
  next
    assume "\<exists>ps ss. c # cs = ps @ t @ ss"
    then obtain ps ss where eq: "c # cs = ps @ t @ ss" by auto
    show "str_includes (c # cs) t"
    proof (cases ps)
      case Nil
      with eq have "starts_with (c # cs) t" by (auto simp: starts_with_iff)
      then show ?thesis by simp
    next
      case (Cons p ps')
      with eq have "cs = ps' @ t @ ss" by simp
      then have "str_includes cs t" using Cons.IH by auto
      then show ?thesis by simp
    qed
  qed
qed

lemma str_includes_trans:
  "str_includes s t \<Longrightarrow> str_includes t u \<Longrightarrow> str_includes s u"
proof -
  assume "str_includes s t" and "str_includes t u"
  then obtain ps ss ps' ss' where "s = ps @ t @ ss" and "t = ps' @ u @ ss'"
    by (auto simp: str_includes_iff)
  then have "s = (ps @ ps') @ u @ (ss' @ ss)" by simp
  then show ?thesis unfolding str_includes_iff by blast
qed

lemma str_includes_longer: "str_includes s t \<Longrightarrow> length t \<le> length s"
  by (auto simp: str_includes_iff)

lemma trim_includes: "str_includes s (trim s)"
proof -
  have "s = takeWhile is_space s @ dropWhile is_space s" by simp
  moreover have "dropWhile is_space s =
      rev (dropWhile is_space (rev (dropWhile is_space s))) @
      rev (takeWhile is_space (rev (dropWhile is_space s)))"
    by (metis rev_append rev_rev_ident takeWhile_dropWhile_id)
  ultimately have "s = takeWhile is_space s @ trim s @
      rev (takeWhile is_space (rev (dropWhile is_space s)))"
    by (simp add: trim_def)
  then show ?thesis unfolding str_includes_iff by blast
qed

lemma split_on_nonempty: "split_on d s \<noteq> []"
proof (induction s)
  case Nil
  then show ?case by simp
next
  case (Cons c cs)
  then show ?case by (cases "split_on d cs") auto
qed

lemma cons_first_nonempty: "ps \<noteq> [] \<Longrightarrow> cons_first c ps = (c # hd ps) # tl ps"
  by (cases ps) auto

lemma split_on_Cons:
  "split_on d (c # cs) =
     (if c = d then [] # split_on d cs
      else (c # hd (split_on d cs)) # tl (split_on d cs))"
  by (simp add: cons_first_nonempty split_on_nonempty)

lemma split_on_hd: "\<exists>ss. s = hd (split_on d s) @ ss"
proof (induction s)
  case Nil
  then show ?case by simp
next
  case (Cons c cs)
  then obtain ss where "cs = hd (split_on d cs) @ ss" by auto
  then have "c # cs = (c # hd (split_on d cs)) @ ss" by simp
  then show ?case unfolding split_on_Cons by auto
qed

lemma split_on_tl: "p \<in> set (tl (split_on d s)) \<Longrightarrow> \<exists>ps ss. s = ps @ p @ ss"
proof (induction s)
  case Nil
  then show ?case by simp
next
  case (Cons c cs)
  show ?case
  proof (cases "c = d")
    case True
    with Cons.prems have "p \<in> set (split_on d cs)" by (simp add: split_on_Cons del: split_on.simps)
    then have "p = hd (split_on d cs) \<or> p \<in> set (tl (split_on d cs))"
      using split_on_nonempty [of d cs] by (cases "split_on d cs") auto
    then show ?thesis
    proof
      assume "p = hd (split_on d cs)"
      then obtain ss where "cs = p @ ss" using split_on_hd [of cs d] by auto
      then have "c # cs = [c] @ p @ ss" by simp
      then show ?thesis by blast
    next
      assume "p \<in> set (tl (split_on d cs))"
      then obtain ps ss where "cs = ps @ p @ ss" using Cons.IH by auto
      then have "c # cs = (c # ps) @ p @ ss" by simp
      then show ?thesis by blast
    qed
  next
    case False
    with Cons.prems have "p \<in> set (tl (split_on d cs))"
      by (simp add: split_on_Cons del: split_on.simps)
    then obtain ps ss where "cs = ps @ p @ ss" using Cons.IH by auto
    then have "c # cs = (c # ps) @ p @ ss" by simp
    then show ?thesis by blast
  qed
qed

lemma split_on_includes: "p \<in> set (split_on d s) \<Longrightarrow> str_includes s p"
proof -
  assume "p \<in> set (split_on d s)"
  then have "p = hd (split_on d s) \<or> p \<in> set (tl (split_on d s))"
    using split_on_nonempty [of d s] by (cases "split_on d s") auto
  then show ?thesis
  proof
    assume "p = hd (split_on d s)"
    then obtain ss where "s = [] @ p @ ss" using split_on_hd [of s d] by auto
    then show ?thesis unfolding str_includes_iff by blast
  next
    assume "p \<in> set (tl (split_on d s))"
    then show ?thesis unfolding str_includes_iff by (rule split_on_tl)
  qed
qed

lemma token_in_alvo: "t \<in> set (tokensAlvo alvo) \<Longrightarrow> str_includes alvo t"
proof -
  assume "t \<in> set (tokensAlvo alvo)"
  then obtain p where "p \<in> set (split_on 32 alvo)" and "t = trim p"
    by (auto simp: tokensAlvo_def)
  then show ?thesis
    using split_on_includes str_includes_trans trim_includes by blast
qed

lemma token_length: "t \<in> set (tokensAlvo alvo) \<Longrightarrow> 2 < length t"
  by (simp add: tokensAlvo_def)

lemma tokensAlvo_Nil: "tokensAlvo [] = []"
  by (simp add: tokensAlvo_def trim_def)


section \<open>parseValorMonetario: the parsed amounts\<close>

lemma parse_eval_1: "parseValorMonetario (Some (js ''42.151,99'')) = Some (to_double (4215199 / 100))"
  by (simp add: parseValorMonetario_def falsy_def js_def limpo_def parseFloat_def is_digit_def
        digits_value_def Let_def isFinite_def double_42151_99)



















section \<open>Evaluations at concrete inputs\<close>

lemma bit_length_0: "bit_length 0 = 0"
  by (simp add: bit_length.simps)

lemma bit_length_1: "bit_length 1 = 1"
  by (subst bit_length.simps) (simp add: bit_length_0)

lemma bit_length_numeral: "bit_length (numeral k) = bit_length (numeral k div 2) + 1"
  by (subst bit_length.simps) simp

lemmas bit_length_eval = bit_length_0 bit_length_1 bit_length_numeral

lemmas normalizar_eval = js_def normalizarTexto_def nfd_ascii_def unit_classes trim_def toLowerCase_def

lemma normalizar_a_comma_b: "normalizarTexto nfd_ascii (Some (js ''a, b'')) = js ''a  b''"
  by (simp add: normalizar_eval)

lemma normalizar_a_2sp_b: "normalizarTexto nfd_ascii (Some (js ''a  b'')) = js ''a b''"
  by (simp add: normalizar_eval)

text \<open>
  Claim C4 says that \<open>normalizarTexto\<close> is idempotent and that its output has no run of
  repeated whitespace. The code collapses the runs of whitespace before it turns
  punctuation into spaces, so \<open>"a, b"\<close> becomes \<open>"a  b"\<close> with two spaces, and a second
  pass collapses them: the claim fails at \<open>"a, b"\<close>.
\<close>

theorem normalizarTexto_not_idempotent:
  "normalizarTexto nfd_ascii (Some (js ''a, b'')) = js ''a  b'' \<and>
   normalizarTexto nfd_ascii (Some (normalizarTexto nfd_ascii (Some (js ''a, b'')))) = js ''a b'' \<and>
   normalizarTexto nfd_ascii (Some (normalizarTexto nfd_ascii (Some (js ''a, b''))))
     \<noteq> normalizarTexto nfd_ascii (Some (js ''a, b''))"
  by (simp add: normalizar_a_comma_b normalizar_a_2sp_b) (simp add: js_def)

lemma limpo_1_23_45: "limpo (js ''1,23,45'') = js ''1.23,45''"
  by (simp add: js_def limpo_def is_digit_def)

lemma parse_1_23_45: "parseValorMonetario (Some (js ''1,23,45'')) = Some (to_double (123 / 100))"
  by (simp add: parseValorMonetario_def falsy_def js_def limpo_def parseFloat_def is_digit_def
        digits_value_def Let_def isFinite_def double_1_23)

text \<open>
  Claim C9. Only the first comma becomes a decimal point: \<open>"1,23,45"\<close> is cleaned to
  \<open>"1.23,45"\<close>, and the parse reads the prefix before the second comma and returns the
  finite Number \<open>1.23\<close>, not \<open>null\<close>.
\<close>

theorem parseValorMonetario_first_comma_only:
  "limpo (js ''1,23,45'') = js ''1.23,45'' \<and>
   parseValorMonetario (Some (js ''1,23,45'')) = Some (to_double (123 / 100)) \<and>
   to_double (123 / 100) = Finite (2769713770832855 / 2251799813685248)"
  by (simp add: limpo_1_23_45 parse_1_23_45 double_1_23)

lemma floor_log2_1: "floor_log2 1 = 0"
  by (simp add: floor_log2_def bit_length_eval)

lemma double_1: "to_double 1 = Finite 1"
  by (simp add: to_double_def floor_log2_1 pow2_def round_half_even_def Let_def)

lemma floor_log2_0_6: "floor_log2 (3 / 5) = - 1"
  by (simp add: floor_log2_def bit_length_eval)

lemma double_0_6: "to_double (3 / 5) = Finite (5404319552844595 / 9007199254740992)"
  by (simp add: to_double_def floor_log2_0_6 pow2_def round_half_even_def Let_def)

lemma floor_log2_0_7: "floor_log2 (7 / 10) = - 1"
  by (simp add: floor_log2_def bit_length_eval)

lemma double_0_7: "to_double (7 / 10) = Finite (3152519739159347 / 4503599627370496)"
  by (simp add: to_double_def floor_log2_0_7 pow2_def round_half_even_def Let_def)

lemma floor_log2_2_3: "floor_log2 (2 / 3) = - 1"
  by (simp add: floor_log2_def bit_length_eval)

lemma double_2_3: "to_double (2 / 3) = Finite (6004799503160661 / 9007199254740992)"
  by (simp add: to_double_def floor_log2_2_3 pow2_def round_half_even_def Let_def)

lemma floor_log2_234_56: "floor_log2 (5864 / 25) = 7"
  by (simp add: floor_log2_def bit_length_eval)

lemma double_234_56: "to_double (5864 / 25) = Finite (4126423158578217 / 17592186044416)"
  by (simp add: to_double_def floor_log2_234_56 pow2_def round_half_even_def Let_def)

lemmas regex_eval = regexValor_all.simps match_valor_def candidatos_valor_def match_digits_def
  groups_star.simps group_at_def tail_at_def is_digit_def

lemma regex_1234_56: "regexValor_all (js ''acme 1234,56'') = [js ''234,56'']"
  by (simp add: js_def regex_eval)

lemma normalizar_acme: "normalizarTexto nfd_ascii (Some (js ''acme'')) = js ''acme''"
  by (simp add: normalizar_eval)

lemma normalizar_acme_line:
  "normalizarTexto nfd_ascii (Some (js ''acme 1234,56'')) = js ''acme 1234 56''"
  by (simp add: normalizar_eval)

lemma tokens_acme: "tokensAlvo (js ''acme'') = [js ''acme'']"
  by (simp add: js_def tokensAlvo_def trim_def is_space_def)

lemma lines_acme: "split_lines (js ''acme 1234,56'') = [js ''acme 1234,56'']"
  by (simp add: js_def)

lemma score_acme: "score_linha [js ''acme''] (js ''acme 1234 56'') = Finite 1"
  by (simp add: score_linha_def encontrados_def js_def double_1)

lemma trim_acme_line: "trim (js ''acme 1234,56'') = js ''acme 1234,56''"
  by (simp add: js_def trim_def is_space_def)

lemma extrair_acme:
  "extrairLinhasFornecedor nfd_ascii (Some (js ''acme 1234,56'')) (Some (js ''acme'')) =
     [\<lparr> linhaOriginal = js ''acme 1234,56'', linhaNormalizada = js ''acme 1234 56'',
        scoreMatch = Finite 1, numerosMonetarios = [js ''234,56''],
        ultimoNumero = Some (js ''234,56'') \<rparr>]"
proof -
  have a: "falsy (Some (js ''acme 1234,56'')) = False" "falsy (Some (js ''acme'')) = False"
    by (simp_all add: falsy_def js_def)
  have b: "js ''acme'' \<noteq> []" "js ''acme 1234 56'' \<noteq> []" "js ''234,56'' \<noteq> []"
    by (simp_all add: js_def)
  show ?thesis
    by (simp add: extrairLinhasFornecedor_def a b normalizar_acme tokens_acme lines_acme
        normalizar_acme_line score_acme double_0_6 js_ge_def linha_resultado_def regex_1234_56
        trim_acme_line Let_def)
qed

lemma parse_234_56: "parseValorMonetario (Some (js ''234,56'')) = Some (to_double (23456 / 100))"
  by (simp add: parseValorMonetario_def falsy_def js_def limpo_def parseFloat_def is_digit_def
        digits_value_def Let_def isFinite_def double_234_56)

section \<open>fornecedorExisteNaRazao: the fast path\<close>

lemma fornecedor_fast_path:
  assumes "normalizarTexto nfd nome \<noteq> []"
    and "str_includes (normalizarTexto nfd razao) (normalizarTexto nfd nome)"
  shows "fornecedorExisteNaRazao nfd nome razao"
proof -
  from assms(1) have n: "\<not> falsy nome" using normalizarTexto_falsy by blast
  have "normalizarTexto nfd razao \<noteq> []"
    using assms by (cases "normalizarTexto nfd razao") auto
  then have t: "\<not> falsy razao" using normalizarTexto_falsy by blast
  show ?thesis
    unfolding fornecedorExisteNaRazao_def Let_def using n t assms by simp
qed

text \<open>
  Claim C5, amended. When the normalized vendor name is not empty and is a substring of
  the normalized document, \<open>fornecedorExisteNaRazao\<close> returns true. (As stated, for every
  vendor name, the claim fails: a name that normalizes to the empty string is a substring
  of every document, and the function returns false for it, by its guard
  \<open>if (!alvo) return false\<close>.)
\<close>

theorem fornecedorExisteNaRazao_substring:
  "normalizarTexto nfd nome \<noteq> [] \<Longrightarrow>
   \<exists>ps ss. normalizarTexto nfd razao = ps @ normalizarTexto nfd nome @ ss \<Longrightarrow>
   fornecedorExisteNaRazao nfd nome razao"
  using fornecedor_fast_path [of nfd nome razao] by (simp add: str_includes_iff)

lemma normalizar_ACME_Ltda: "normalizarTexto nfd_ascii (Some (js ''ACME Ltda'')) = js ''acme ltda''"
  by (simp add: normalizar_eval)

theorem fornecedorExisteNaRazao_substring_witness:
  "normalizarTexto nfd_ascii (Some (js ''acme'')) \<noteq> [] \<and>
   (\<exists>ps ss. normalizarTexto nfd_ascii (Some (js ''ACME Ltda''))
       = ps @ normalizarTexto nfd_ascii (Some (js ''acme'')) @ ss) \<and>
   fornecedorExisteNaRazao nfd_ascii (Some (js ''acme'')) (Some (js ''ACME Ltda''))"
proof -
  have 1: "normalizarTexto nfd_ascii (Some (js ''acme'')) \<noteq> []"
    by (simp add: normalizar_acme) (simp add: js_def)
  have "js ''acme ltda'' = [] @ js ''acme'' @ js '' ltda''" by (simp add: js_def)
  then have 2: "\<exists>ps ss. normalizarTexto nfd_ascii (Some (js ''ACME Ltda''))
       = ps @ normalizarTexto nfd_ascii (Some (js ''acme'')) @ ss"
    unfolding normalizar_acme normalizar_ACME_Ltda by blast
  from 1 2 fornecedorExisteNaRazao_substring [OF 1 2] show ?thesis by blast
qed

lemma normalizar_hyphen: "normalizarTexto nfd_ascii (Some (js ''-'')) = []"
  by (simp add: normalizar_eval)

theorem fornecedorExisteNaRazao_empty_name_counterexample:
  "(\<exists>ps ss. normalizarTexto nfd_ascii (Some (js ''abc''))
       = ps @ normalizarTexto nfd_ascii (Some (js ''-'')) @ ss) \<and>
   \<not> fornecedorExisteNaRazao nfd_ascii (Some (js ''-'')) (Some (js ''abc''))"
proof -
  have "\<not> fornecedorExisteNaRazao nfd_ascii (Some (js ''-'')) (Some (js ''abc''))"
    by (simp add: fornecedorExisteNaRazao_def normalizar_hyphen)
  moreover have "normalizarTexto nfd_ascii (Some (js ''abc''))
       = normalizarTexto nfd_ascii (Some (js ''abc'')) @ normalizarTexto nfd_ascii (Some (js ''-'')) @ []"
    by (simp add: normalizar_hyphen)
  ultimately show ?thesis by blast
qed

lemma fornecedor_falsy:
  "falsy nome \<or> falsy razao \<Longrightarrow> fornecedorExisteNaRazao nfd nome razao = False"
  by (simp add: fornecedorExisteNaRazao_def)

lemma extrair_falsy:
  "falsy nome \<or> falsy razao \<Longrightarrow> extrairLinhasFornecedor nfd razao nome = []"
  by (auto simp: extrairLinhasFornecedor_def)

lemma parse_falsy: "falsy s \<Longrightarrow> parseValorMonetario s = None"
  by (simp add: parseValorMonetario_def)

lemma falsy_Some_Nil: "falsy (Some [])"
  by (simp add: falsy_def)

lemma chaves_distinct: "distinct chavesRelatorios"
  by (simp add: chavesRelatorios_def js_def)

lemma avaliar_Nil: "avaliar [] = \<lparr> status = dados_insuficientes, valorReferenciaAproximado = None \<rparr>"
  by (simp add: avaliar_def)

lemma relatorio_step_empty:
  assumes "extrairLinhasFornecedor nfd
      (Some (if falsy (textos chave) then [] else the (textos chave))) nome = []"
  shows "relatorio_step nfd nome textos st chave =
      ((fst st)(chave \<mapsto> \<lparr> linhasFornecedor = [], saldosEncontrados = [] \<rparr>), snd st)"
  unfolding relatorio_step_def Let_def using assms by simp

lemma montar_empty:
  assumes "\<And>k. k \<in> set chavesRelatorios \<Longrightarrow>
     extrairLinhasFornecedor nfd (Some (if falsy (textos k) then [] else the (textos k))) nome = []"
  shows "montarIndicadoresFornecedor nfd nome textos =
     \<lparr> indicadoresFornecedor =
         (\<lambda>k. if k \<in> set chavesRelatorios
              then Some \<lparr> linhasFornecedor = [], saldosEncontrados = [] \<rparr> else None),
       avaliacaoAutomaticaSaldo =
         \<lparr> status = dados_insuficientes, valorReferenciaAproximado = None \<rparr> \<rparr>"
proof -
  have "foldl (relatorio_step nfd nome textos) (Map.empty, []) chavesRelatorios =
      ((\<lambda>k. if k \<in> set chavesRelatorios
              then Some \<lparr> linhasFornecedor = [], saldosEncontrados = [] \<rparr> else None), [])"
    using assms
    by (simp add: chavesRelatorios_def relatorio_step_empty) (auto simp: fun_eq_iff)
  then show ?thesis
    by (simp add: montarIndicadoresFornecedor_def avaliar_Nil)
qed


section \<open>montarIndicadoresFornecedor: the loop over the sources\<close>

lemma obj_set_new: "k \<notin> fst ` set obj \<Longrightarrow> obj_set k v obj = obj @ [(k, v)]"
  by (simp add: obj_set_def)

lemma relatorio_step_eq:
  "k \<notin> fst ` set al \<Longrightarrow>
   relatorio_step nfd nome textos (m, al) k =
     (m(k \<mapsto> \<lparr> linhasFornecedor =
          extrairLinhasFornecedor nfd (Some (if falsy (textos k) then [] else the (textos k))) nome,
        saldosEncontrados = saldos_loop
          (extrairLinhasFornecedor nfd (Some (if falsy (textos k) then [] else the (textos k))) nome) \<rparr>),
      al @ map (\<lambda>k. (k, map numero (saldos_loop
          (extrairLinhasFornecedor nfd (Some (if falsy (textos k) then [] else the (textos k))) nome))))
        (filter (\<lambda>k. saldos_loop
          (extrairLinhasFornecedor nfd (Some (if falsy (textos k) then [] else the (textos k))) nome) \<noteq> [])
          [k]))"
  unfolding relatorio_step_def Let_def by (simp add: obj_set_new)

lemma relatorio_fold:
  fixes nfd nome textos
  defines "L \<equiv> \<lambda>k. extrairLinhasFornecedor nfd
      (Some (if falsy (textos k) then [] else the (textos k))) nome"
  assumes "distinct ks" and "set ks \<inter> fst ` set al = {}"
  shows "foldl (relatorio_step nfd nome textos) (m, al) ks =
     ((\<lambda>k. if k \<in> set ks
            then Some \<lparr> linhasFornecedor = L k, saldosEncontrados = saldos_loop (L k) \<rparr>
            else m k),
      al @ map (\<lambda>k. (k, map numero (saldos_loop (L k))))
             (filter (\<lambda>k. saldos_loop (L k) \<noteq> []) ks))"
  using assms(2,3)
proof (induction ks arbitrary: m al)
  case Nil
  then show ?case by simp
next
  case (Cons k ks)
  let ?al' = "al @ map (\<lambda>k. (k, map numero (saldos_loop (L k))))
        (filter (\<lambda>k. saldos_loop (L k) \<noteq> []) [k])"
  let ?m' = "m(k \<mapsto> \<lparr> linhasFornecedor = L k, saldosEncontrados = saldos_loop (L k) \<rparr>)"
  from Cons.prems have k: "k \<notin> fst ` set al" by auto
  have step: "relatorio_step nfd nome textos (m, al) k = (?m', ?al')"
    unfolding L_def by (rule relatorio_step_eq [OF k])
  have d: "distinct ks" using Cons.prems by simp
  have "fst ` set ?al' \<subseteq> fst ` set al \<union> {k}" by auto
  with Cons.prems have i: "set ks \<inter> fst ` set ?al' = {}" by auto
  have "foldl (relatorio_step nfd nome textos) (m, al) (k # ks)
      = foldl (relatorio_step nfd nome textos) (?m', ?al') ks"
    by (simp add: step)
  also have "\<dots> = ((\<lambda>k'. if k' \<in> set ks
            then Some \<lparr> linhasFornecedor = L k', saldosEncontrados = saldos_loop (L k') \<rparr>
            else ?m' k'),
      ?al' @ map (\<lambda>k. (k, map numero (saldos_loop (L k))))
             (filter (\<lambda>k. saldos_loop (L k) \<noteq> []) ks))"
    by (rule Cons.IH [OF d i])
  also have "\<dots> = ((\<lambda>k'. if k' \<in> set (k # ks)
            then Some \<lparr> linhasFornecedor = L k', saldosEncontrados = saldos_loop (L k') \<rparr>
            else m k'),
      al @ map (\<lambda>k. (k, map numero (saldos_loop (L k))))
             (filter (\<lambda>k. saldos_loop (L k) \<noteq> []) (k # ks)))"
    by (auto simp: fun_eq_iff)
  finally show ?case .
qed

lemma montar_eq:
  fixes nfd nome textos
  defines "L \<equiv> \<lambda>k. extrairLinhasFornecedor nfd
      (Some (if falsy (textos k) then [] else the (textos k))) nome"
  shows "montarIndicadoresFornecedor nfd nome textos =
     \<lparr> indicadoresFornecedor =
         (\<lambda>k. if k \<in> set chavesRelatorios
            then Some \<lparr> linhasFornecedor = L k, saldosEncontrados = saldos_loop (L k) \<rparr>
            else None),
       avaliacaoAutomaticaSaldo =
         avaliar (map (\<lambda>k. (k, map numero (saldos_loop (L k))))
             (filter (\<lambda>k. saldos_loop (L k) \<noteq> []) chavesRelatorios)) \<rparr>"
proof -
  have "foldl (relatorio_step nfd nome textos) (Map.empty, []) chavesRelatorios =
     ((\<lambda>k. if k \<in> set chavesRelatorios
            then Some \<lparr> linhasFornecedor = L k, saldosEncontrados = saldos_loop (L k) \<rparr>
            else None),
      [] @ map (\<lambda>k. (k, map numero (saldos_loop (L k))))
             (filter (\<lambda>k. saldos_loop (L k) \<noteq> []) chavesRelatorios))"
    unfolding L_def by (rule relatorio_fold) (simp_all add: chaves_distinct)
  then show ?thesis
    by (simp add: montarIndicadoresFornecedor_def)
qed

lemma montar_dom: "dom (indicadoresFornecedor (montarIndicadoresFornecedor nfd nome textos))
    = set chavesRelatorios"
  by (simp add: montar_eq dom_def)

lemma montar_missing:
  assumes "k \<in> set chavesRelatorios" and "textos k = None"
  shows "indicadoresFornecedor (montarIndicadoresFornecedor nfd nome textos) k
    = Some \<lparr> linhasFornecedor = [], saldosEncontrados = [] \<rparr>"
  using assms by (simp add: montar_eq falsy_def extrair_falsy falsy_Some_Nil)

lemma montar_cong:
  assumes "\<forall>k\<in>set chavesRelatorios. textos k = textos' k"
  shows "montarIndicadoresFornecedor nfd nome textos = montarIndicadoresFornecedor nfd nome textos'"
proof -
  have step: "relatorio_step nfd nome textos st k = relatorio_step nfd nome textos' st k"
    if "k \<in> set chavesRelatorios" for st k
    using that assms by (simp add: relatorio_step_def)
  have "foldl (relatorio_step nfd nome textos) st ks
      = foldl (relatorio_step nfd nome textos') st ks"
    if "set ks \<subseteq> set chavesRelatorios" for ks st
    using that by (induction ks arbitrary: st) (auto simp: step)
  then show ?thesis
    by (simp add: montarIndicadoresFornecedor_def)
qed

text \<open>
  Claim C7. \<open>montarIndicadoresFornecedor\<close> works on exactly the three keys
  \<open>balancete\<close>, \<open>contas_pagar\<close> and \<open>razao\<close>: these are the keys of the indicators it
  returns, a key that the input mapping lacks gives the empty indicator (no lines, no
  balances), and two input mappings that agree on the three keys give the same result,
  whatever other keys they hold.
\<close>

theorem montarIndicadores_fixed_keys:
  "dom (indicadoresFornecedor (montarIndicadoresFornecedor nfd nome textos))
     = {js ''balancete'', js ''contas_pagar'', js ''razao''} \<and>
   (k \<in> {js ''balancete'', js ''contas_pagar'', js ''razao''} \<and> textos k = None \<longrightarrow>
      indicadoresFornecedor (montarIndicadoresFornecedor nfd nome textos) k
        = Some \<lparr> linhasFornecedor = [], saldosEncontrados = [] \<rparr>) \<and>
   ((\<forall>k\<in>{js ''balancete'', js ''contas_pagar'', js ''razao''}. textos k = textos' k) \<longrightarrow>
      montarIndicadoresFornecedor nfd nome textos = montarIndicadoresFornecedor nfd nome textos')"
proof -
  have s: "set chavesRelatorios = {js ''balancete'', js ''contas_pagar'', js ''razao''}"
    by (simp add: chavesRelatorios_def)
  show ?thesis
    using montar_dom [of nfd nome textos] montar_missing [of k textos nfd nome]
      montar_cong [of textos textos' nfd nome]
    unfolding s by blast
qed

theorem montarIndicadores_fixed_keys_witness:
  "js ''razao'' \<in> {js ''balancete'', js ''contas_pagar'', js ''razao''} \<and>
   Map.empty (js ''razao'') = (None :: jsstring option) \<and>
   indicadoresFornecedor (montarIndicadoresFornecedor nfd_ascii (Some (js ''acme'')) Map.empty)
       (js ''razao'') = Some \<lparr> linhasFornecedor = [], saldosEncontrados = [] \<rparr> \<and>
   montarIndicadoresFornecedor nfd_ascii (Some (js ''acme'')) Map.empty
     = montarIndicadoresFornecedor nfd_ascii (Some (js ''acme''))
         [js ''extrato'' \<mapsto> js ''acme 1,00'']"
proof -
  note t = montarIndicadores_fixed_keys [of nfd_ascii "Some (js ''acme'')" Map.empty
        "js ''razao''" "[js ''extrato'' \<mapsto> js ''acme 1,00'']"]
  have h: "\<forall>k\<in>{js ''balancete'', js ''contas_pagar'', js ''razao''}.
      (Map.empty :: jsstring \<rightharpoonup> jsstring) k = [js ''extrato'' \<mapsto> js ''acme 1,00''] k"
    by (simp add: js_def)
  have 1: "js ''razao'' \<in> {js ''balancete'', js ''contas_pagar'', js ''razao''}" by simp
  have 2: "Map.empty (js ''razao'') = (None :: jsstring option)" by simp
  from t 1 2 have 3: "indicadoresFornecedor
      (montarIndicadoresFornecedor nfd_ascii (Some (js ''acme'')) Map.empty) (js ''razao'')
       = Some \<lparr> linhasFornecedor = [], saldosEncontrados = [] \<rparr>" by blast
  from t h have 4: "montarIndicadoresFornecedor nfd_ascii (Some (js ''acme'')) Map.empty
     = montarIndicadoresFornecedor nfd_ascii (Some (js ''acme''))
         [js ''extrato'' \<mapsto> js ''acme 1,00'']" by blast
  from 1 2 3 4 show ?thesis by blast
qed

text \<open>
  The results on degenerate inputs. With a \<open>null\<close> or empty vendor name or document,
  \<open>fornecedorExisteNaRazao\<close> is false and \<open>extrairLinhasFornecedor\<close> returns no line;
  \<open>normalizarTexto\<close> gives the empty string and \<open>parseValorMonetario\<close> gives \<open>null\<close>;
  with a \<open>null\<close> or empty vendor name, or with no text or an empty text for each of the
  three sources, \<open>montarIndicadoresFornecedor\<close> returns an indicator with no line and no
  balance for each source and the verdict \<open>dados_insuficientes\<close>.
\<close>

lemma degenerate_inputs:
  "(falsy nome \<or> falsy razao \<longrightarrow>
      fornecedorExisteNaRazao nfd nome razao = False \<and>
      extrairLinhasFornecedor nfd razao nome = []) \<and>
   (falsy s \<longrightarrow> normalizarTexto nfd s = [] \<and> parseValorMonetario s = None) \<and>
   (falsy nome \<or> (\<forall>k\<in>set chavesRelatorios. falsy (textos k)) \<longrightarrow>
      montarIndicadoresFornecedor nfd nome textos =
        \<lparr> indicadoresFornecedor =
            (\<lambda>k. if k \<in> set chavesRelatorios
                 then Some \<lparr> linhasFornecedor = [], saldosEncontrados = [] \<rparr> else None),
          avaliacaoAutomaticaSaldo =
            \<lparr> status = dados_insuficientes, valorReferenciaAproximado = None \<rparr> \<rparr>)"
proof -
  have "montarIndicadoresFornecedor nfd nome textos =
        \<lparr> indicadoresFornecedor =
            (\<lambda>k. if k \<in> set chavesRelatorios
                 then Some \<lparr> linhasFornecedor = [], saldosEncontrados = [] \<rparr> else None),
          avaliacaoAutomaticaSaldo =
            \<lparr> status = dados_insuficientes, valorReferenciaAproximado = None \<rparr> \<rparr>"
    if "falsy nome \<or> (\<forall>k\<in>set chavesRelatorios. falsy (textos k))"
  proof (rule montar_empty)
    fix k
    assume "k \<in> set chavesRelatorios"
    with that show "extrairLinhasFornecedor nfd
        (Some (if falsy (textos k) then [] else the (textos k))) nome = []"
      by (auto simp: extrair_falsy falsy_Some_Nil)
  qed
  then show ?thesis
    using fornecedor_falsy [of nome razao nfd] extrair_falsy [of nome razao nfd]
      normalizarTexto_falsy [of s nfd] parse_falsy [of s]
    by blast
qed

lemma degenerate_inputs_examples:
  "falsy None \<and> falsy (Some []) \<and>
   fornecedorExisteNaRazao nfd_ascii None (Some (js ''acme 1,00'')) = False \<and>
   extrairLinhasFornecedor nfd_ascii (Some []) (Some (js ''acme'')) = [] \<and>
   normalizarTexto nfd_ascii None = [] \<and> parseValorMonetario (Some []) = None \<and>
   status (avaliacaoAutomaticaSaldo
     (montarIndicadoresFornecedor nfd_ascii (Some (js ''acme'')) (\<lambda>k. Some [])))
     = dados_insuficientes"
proof -
  have f: "falsy None" "falsy (Some [])" by (simp_all add: falsy_def)
  show ?thesis
    using f
      degenerate_inputs [of None "Some (js ''acme 1,00'')" nfd_ascii None "\<lambda>k. Some []"]
      degenerate_inputs [of "Some (js ''acme'')" "Some []" nfd_ascii "Some []" "\<lambda>k. Some []"]
    by simp
qed


section \<open>extrairLinhasFornecedor: the scores\<close>

lemma bit_length_nonneg: "0 \<le> bit_length n"
proof (induction n rule: bit_length.induct)
  case (1 n)
  show ?case
  proof (cases "n \<le> 0")
    case True
    then show ?thesis by (subst bit_length.simps) simp
  next
    case False
    with 1 have "0 \<le> bit_length (n div 2)" by simp
    with False show ?thesis by (subst bit_length.simps) simp
  qed
qed

lemma floor_log2_le_0: "q \<le> 1 \<Longrightarrow> floor_log2 q \<le> 0"
proof (cases "1 \<le> q")
  case True
  assume "q \<le> 1"
  with True have "q = 1" by simp
  then show ?thesis by (simp add: floor_log2_def bit_length_1)
next
  case False
  then show ?thesis
    using bit_length_nonneg [of "- \<lfloor>- (1 / q)\<rfloor> - 1"] by (simp add: floor_log2_def)
qed

lemma round_half_even_nonneg: "0 \<le> x \<Longrightarrow> 0 \<le> round_half_even x"
  by (auto simp: round_half_even_def Let_def)

lemma round_half_even_le:
  assumes "x \<le> of_int N"
  shows "round_half_even x \<le> N"
proof -
  have f: "\<lfloor>x\<rfloor> \<le> N" using assms by (simp add: floor_le_iff)
  show ?thesis
  proof (cases "x = of_int \<lfloor>x\<rfloor>")
    case True
    then have "x - of_int \<lfloor>x\<rfloor> = 0" by simp
    then have "round_half_even x = \<lfloor>x\<rfloor>" by (simp add: round_half_even_def Let_def)
    with f show ?thesis by simp
  next
    case False
    then have "of_int \<lfloor>x\<rfloor> < x" by (metis of_int_floor_le order_le_less)
    with assms have "(of_int \<lfloor>x\<rfloor> :: rat) < of_int N" by simp
    then have "\<lfloor>x\<rfloor> + 1 \<le> N" by simp
    moreover have "round_half_even x \<le> \<lfloor>x\<rfloor> + 1"
      by (simp add: round_half_even_def Let_def)
    ultimately show ?thesis by simp
  qed
qed

lemma to_double_unit:
  assumes "0 \<le> q" and "q \<le> 1"
  shows "\<exists>r. to_double q = Finite r \<and> 0 \<le> r \<and> r \<le> 1"
proof (cases "q = 0")
  case True
  then show ?thesis by (simp add: to_double_def)
next
  case False
  with assms have pos: "0 < q" by simp
  define e where "e = max (floor_log2 q - 52) (- 1074)"
  define k where "k = nat (- e)"
  have "e < 0" using floor_log2_le_0 [OF assms(2)] by (simp add: e_def)
  then have p: "pow2 e = 1 / 2 ^ k" by (simp add: pow2_def k_def)
  define m where "m = round_half_even (q / pow2 e)"
  have x: "q / pow2 e = q * 2 ^ k" by (simp add: p)
  have "q * 2 ^ k \<le> 1 * 2 ^ k" using assms(2) by (intro mult_right_mono) simp_all
  then have "q / pow2 e \<le> of_int (2 ^ k)" by (simp add: x)
  then have m_le: "m \<le> 2 ^ k" unfolding m_def by (rule round_half_even_le)
  have "0 \<le> q / pow2 e" using pos by (simp add: x)
  then have m_ge: "0 \<le> m" unfolding m_def by (rule round_half_even_nonneg)
  define v where "v = of_int m * pow2 e"
  have v: "v = of_int m / 2 ^ k" by (simp add: v_def p)
  have v_ge: "0 \<le> v" using m_ge by (simp add: v)
  have "(of_int m :: rat) \<le> of_int (2 ^ k)" using m_le by (simp only: of_int_le_iff)
  then have v_le: "v \<le> 1" by (simp add: v divide_le_eq)
  have "(1::rat) < pow2 1024" by (simp add: pow2_def)
  with v_le have no: "\<not> pow2 1024 \<le> v" by simp
  have "to_double q = Finite v"
    using pos no by (simp add: to_double_def Let_def e_def [symmetric] v_def m_def)
  with v_ge v_le show ?thesis by simp
qed

lemma encontrados_le: "encontrados tokens linha \<le> length tokens"
  by (simp add: encontrados_def)

lemma score_linha_unit:
  assumes "tokens \<noteq> []"
  shows "\<exists>r. score_linha tokens linha = Finite r \<and> 0 \<le> r \<and> r \<le> 1"
proof -
  let ?k = "of_nat (encontrados tokens linha) :: rat" and ?n = "of_nat (length tokens) :: rat"
  have n: "0 < ?n" using assms by simp
  have "?k \<le> ?n" using encontrados_le [of tokens linha] by (simp only: of_nat_le_iff)
  with n have "?k / ?n \<le> 1" by (simp add: divide_le_eq)
  moreover have "0 \<le> ?k / ?n" by simp
  ultimately obtain r where "to_double (?k / ?n) = Finite r" "0 \<le> r" "r \<le> 1"
    using to_double_unit by blast
  with n show ?thesis by (simp add: score_linha_def)
qed

lemma linha_resultado_fields:
  "scoreMatch (linha_resultado l n s) = s"
  "linhaNormalizada (linha_resultado l n s) = n"
  "linhaOriginal (linha_resultado l n s) = trim l"
  "numerosMonetarios (linha_resultado l n s) = regexValor_all l"
  by (simp_all add: linha_resultado_def Let_def)

lemma linhas_loop_mem:
  assumes "m \<in> set (linhas_loop nfd tokens ls)" and "tokens \<noteq> []"
  shows "\<exists>l\<in>set ls. normalizarTexto nfd (Some l) \<noteq> [] \<and>
      js_ge (score_linha tokens (normalizarTexto nfd (Some l))) (to_double (6 / 10)) \<and>
      m = linha_resultado l (normalizarTexto nfd (Some l))
            (score_linha tokens (normalizarTexto nfd (Some l)))"
  using assms
proof (induction ls)
  case Nil
  then show ?case by simp
next
  case (Cons l ls)
  then show ?case
    by (auto simp: Let_def split: if_splits)
qed

lemma linhas_loop_has:
  assumes "l \<in> set ls" and "tokens \<noteq> []" and "normalizarTexto nfd (Some l) \<noteq> []"
    and "js_ge (score_linha tokens (normalizarTexto nfd (Some l))) (to_double (6 / 10))"
  shows "linha_resultado l (normalizarTexto nfd (Some l))
            (score_linha tokens (normalizarTexto nfd (Some l)))
         \<in> set (linhas_loop nfd tokens ls)"
  using assms
proof (induction ls)
  case Nil
  then show ?case by simp
next
  case (Cons l' ls)
  then show ?case
    by (auto simp: Let_def)
qed

lemma linhas_loop_filter:
  assumes "tokens \<noteq> []"
  shows "map linhaNormalizada (linhas_loop nfd tokens ls) =
     filter (\<lambda>n. n \<noteq> [] \<and> js_ge (score_linha tokens n) (to_double (6 / 10)))
       (map (\<lambda>l. normalizarTexto nfd (Some l)) ls)"
  using assms by (induction ls) (auto simp: Let_def linha_resultado_fields)

lemma extrair_eq:
  assumes "\<not> falsy razao" and "tokensAlvo (normalizarTexto nfd nome) \<noteq> []"
  shows "extrairLinhasFornecedor nfd razao nome =
     linhas_loop nfd (tokensAlvo (normalizarTexto nfd nome)) (split_lines (the razao))"
proof -
  from assms(2) have "normalizarTexto nfd nome \<noteq> []"
    using tokensAlvo_Nil by auto
  moreover from this have "\<not> falsy nome" using normalizarTexto_falsy by blast
  ultimately show ?thesis using assms by (simp add: extrairLinhasFornecedor_def Let_def)
qed

lemma extrair_Nil:
  assumes "falsy razao \<or> tokensAlvo (normalizarTexto nfd nome) = []"
  shows "extrairLinhasFornecedor nfd razao nome = []"
  using assms by (auto simp: extrairLinhasFornecedor_def Let_def)

text \<open>
  Claim C6. Every line that \<open>extrairLinhasFornecedor\<close> returns has a score that is at
  least \<open>0.6\<close> and lies between 0 and 1; the score is the number of vendor tokens (of
  length above 2) that the normalized line includes, divided by the number of such
  tokens. The lines below \<open>0.6\<close> are left out: the normalized lines of the result are, in
  order, the non-empty normalized lines of the document whose score is at least \<open>0.6\<close>.
  (Scores are Numbers: the division and the comparisons are those of binary64, and
  \<open>0.6\<close> is the Number nearest to it.)
\<close>

theorem extrairLinhasFornecedor_scores:
  "(\<forall>m\<in>set (extrairLinhasFornecedor nfd razao nome).
      js_ge (scoreMatch m) (to_double (6 / 10)) \<and>
      js_le (Finite 0) (scoreMatch m) \<and> js_le (scoreMatch m) (Finite 1) \<and>
      scoreMatch m =
        js_div (Finite (of_nat (encontrados (tokensAlvo (normalizarTexto nfd nome))
                                  (linhaNormalizada m))))
               (Finite (of_nat (length (tokensAlvo (normalizarTexto nfd nome)))))) \<and>
   map linhaNormalizada (extrairLinhasFornecedor nfd razao nome) =
     (if falsy razao \<or> tokensAlvo (normalizarTexto nfd nome) = [] then []
      else filter (\<lambda>n. n \<noteq> [] \<and>
               js_ge (score_linha (tokensAlvo (normalizarTexto nfd nome)) n) (to_double (6 / 10)))
             (map (\<lambda>l. normalizarTexto nfd (Some l)) (split_lines (the razao))))"
proof (cases "falsy razao \<or> tokensAlvo (normalizarTexto nfd nome) = []")
  case True
  then show ?thesis using extrair_Nil [OF True] by simp
next
  case False
  let ?tokens = "tokensAlvo (normalizarTexto nfd nome)"
  from False have t: "?tokens \<noteq> []" and r: "\<not> falsy razao" by auto
  have eq: "extrairLinhasFornecedor nfd razao nome = linhas_loop nfd ?tokens (split_lines (the razao))"
    using r t by (rule extrair_eq)
  have per: "js_ge (scoreMatch m) (to_double (6 / 10)) \<and>
      js_le (Finite 0) (scoreMatch m) \<and> js_le (scoreMatch m) (Finite 1) \<and>
      scoreMatch m = js_div (Finite (of_nat (encontrados ?tokens (linhaNormalizada m))))
               (Finite (of_nat (length ?tokens)))"
    if "m \<in> set (extrairLinhasFornecedor nfd razao nome)" for m
  proof -
    from that obtain l where
      ge: "js_ge (score_linha ?tokens (normalizarTexto nfd (Some l))) (to_double (6 / 10))" and
      m: "m = linha_resultado l (normalizarTexto nfd (Some l))
            (score_linha ?tokens (normalizarTexto nfd (Some l)))"
      using linhas_loop_mem [OF _ t] unfolding eq by blast
    obtain q where q: "score_linha ?tokens (normalizarTexto nfd (Some l)) = Finite q"
      "0 \<le> q" "q \<le> 1"
      using score_linha_unit [OF t] by blast
    have sm: "scoreMatch m = score_linha ?tokens (linhaNormalizada m)"
      by (simp add: m linha_resultado_fields)
    have ln: "linhaNormalizada m = normalizarTexto nfd (Some l)"
      by (simp add: m linha_resultado_fields)
    have 1: "js_ge (scoreMatch m) (to_double (6 / 10))" using ge by (simp only: sm ln)
    have 2: "js_le (Finite 0) (scoreMatch m)" "js_le (scoreMatch m) (Finite 1)"
      using q by (simp_all only: sm ln js_le.simps)
    have 3: "scoreMatch m = js_div (Finite (of_nat (encontrados ?tokens (linhaNormalizada m))))
               (Finite (of_nat (length ?tokens)))"
      unfolding sm score_linha_def ..
    from 1 2 3 show ?thesis by blast
  qed
  have filt: "map linhaNormalizada (extrairLinhasFornecedor nfd razao nome) =
      filter (\<lambda>n. n \<noteq> [] \<and> js_ge (score_linha ?tokens n) (to_double (6 / 10)))
             (map (\<lambda>l. normalizarTexto nfd (Some l)) (split_lines (the razao)))"
    unfolding eq using t by (rule linhas_loop_filter)
  have B: "map linhaNormalizada (extrairLinhasFornecedor nfd razao nome) =
     (if falsy razao \<or> ?tokens = [] then []
      else filter (\<lambda>n. n \<noteq> [] \<and> js_ge (score_linha ?tokens n) (to_double (6 / 10)))
             (map (\<lambda>l. normalizarTexto nfd (Some l)) (split_lines (the razao))))"
    using False filt by (simp only: if_False)
  from per B show ?thesis by blast
qed


section \<open>The two thresholds\<close>

lemma extrair_two_lines:
  "extrairLinhasFornecedor nfd_ascii (Some (js ''acme 1234,56'' @ 10 # js ''outro 1,00''))
       (Some (js ''acme'')) =
     [\<lparr> linhaOriginal = js ''acme 1234,56'', linhaNormalizada = js ''acme 1234 56'',
        scoreMatch = Finite 1, numerosMonetarios = [js ''234,56''],
        ultimoNumero = Some (js ''234,56'') \<rparr>]"
proof -
  have a: "falsy (Some (js ''acme 1234,56'' @ 10 # js ''outro 1,00'')) = False"
    "falsy (Some (js ''acme'')) = False"
    by (simp_all add: falsy_def js_def)
  have b: "js ''acme'' \<noteq> []" "js ''acme 1234 56'' \<noteq> []" "js ''234,56'' \<noteq> []"
    "js ''outro 1 00'' \<noteq> []"
    by (simp_all add: js_def)
  have l: "split_lines (js ''acme 1234,56'' @ 10 # js ''outro 1,00'')
      = [js ''acme 1234,56'', js ''outro 1,00'']"
    by (simp add: js_def)
  have n: "normalizarTexto nfd_ascii (Some (js ''outro 1,00'')) = js ''outro 1 00''"
    by (simp add: normalizar_eval)
  have sc: "score_linha [js ''acme''] (js ''outro 1 00'') = Finite 0"
    by (simp add: score_linha_def encontrados_def js_def to_double_def)
  show ?thesis
    by (simp add: extrairLinhasFornecedor_def a b normalizar_acme tokens_acme l
        normalizar_acme_line score_acme double_0_6 js_ge_def linha_resultado_def regex_1234_56
        trim_acme_line n sc Let_def)
qed

theorem extrairLinhasFornecedor_scores_witness:
  "map linhaNormalizada
     (extrairLinhasFornecedor nfd_ascii (Some (js ''acme 1234,56'' @ 10 # js ''outro 1,00''))
        (Some (js ''acme''))) = [js ''acme 1234 56''] \<and>
   list_all (\<lambda>m. js_ge (scoreMatch m) (to_double (6 / 10)) \<and> js_le (scoreMatch m) (Finite 1))
     (extrairLinhasFornecedor nfd_ascii (Some (js ''acme 1234,56'' @ 10 # js ''outro 1,00''))
        (Some (js ''acme'')))"
proof -
  note t = extrairLinhasFornecedor_scores [of nfd_ascii
      "Some (js ''acme 1234,56'' @ 10 # js ''outro 1,00'')" "Some (js ''acme'')"]
  from t have "\<forall>m\<in>set (extrairLinhasFornecedor nfd_ascii
        (Some (js ''acme 1234,56'' @ 10 # js ''outro 1,00'')) (Some (js ''acme''))).
      js_ge (scoreMatch m) (to_double (6 / 10)) \<and> js_le (scoreMatch m) (Finite 1)"
    by blast
  then have 2: "list_all
      (\<lambda>m. js_ge (scoreMatch m) (to_double (6 / 10)) \<and> js_le (scoreMatch m) (Finite 1))
      (extrairLinhasFornecedor nfd_ascii (Some (js ''acme 1234,56'' @ 10 # js ''outro 1,00''))
        (Some (js ''acme'')))"
    unfolding list_all_iff by blast
  have 1: "map linhaNormalizada
     (extrairLinhasFornecedor nfd_ascii (Some (js ''acme 1234,56'' @ 10 # js ''outro 1,00''))
        (Some (js ''acme''))) = [js ''acme 1234 56'']"
    by (simp add: extrair_two_lines)
  from 1 2 show ?thesis by blast
qed

lemma split_lines_single: "10 \<notin> set l \<Longrightarrow> split_lines l = [l]"
  by (induction l rule: split_lines.induct) auto

lemma alguma_linha_iff:
  "alguma_linha tokens ls \<longleftrightarrow>
     (\<exists>n\<in>set ls. js_ge (score_linha tokens n) (to_double (7 / 10)))"
  by (induction ls) auto

lemma encontrados_all:
  assumes "str_includes n alvo"
  shows "encontrados (tokensAlvo alvo) n = length (tokensAlvo alvo)"
proof -
  have "\<forall>t\<in>set (tokensAlvo alvo). str_includes n t"
    using assms token_in_alvo str_includes_trans by blast
  then have "filter (\<lambda>token. str_includes n token) (tokensAlvo alvo) = tokensAlvo alvo"
    by (simp add: filter_id_conv)
  then show ?thesis by (simp add: encontrados_def)
qed

lemma encontrados_Nil:
  "encontrados (tokensAlvo alvo) [] = 0"
proof -
  have "\<forall>t\<in>set (tokensAlvo alvo). \<not> str_includes [] t"
    using token_length by fastforce
  then show ?thesis by (simp add: encontrados_def)
qed

lemma score_2_of_3:
  assumes "length tokens = 3" and "encontrados tokens n = 2"
  shows "score_linha tokens n = to_double (2 / 3)"
  using assms by (simp add: score_linha_def)

lemma score_3_of_3:
  assumes "length tokens = 3" and "encontrados tokens n = 3"
  shows "score_linha tokens n = Finite 1"
  using assms by (simp add: score_linha_def double_1)

lemma two_thirds_thresholds:
  "\<not> js_ge (to_double (2 / 3)) (to_double (7 / 10))"
  "js_ge (to_double (2 / 3)) (to_double (6 / 10))"
  "js_ge (Finite 1) (to_double (7 / 10))"
  by (simp_all add: js_ge_def double_2_3 double_0_7 double_0_6)

lemma two_of_three_not_present:
  assumes len: "length (tokensAlvo (normalizarTexto nfd nome)) = 3"
    and one: "10 \<notin> set l"
    and two: "encontrados (tokensAlvo (normalizarTexto nfd nome)) (normalizarTexto nfd (Some l)) = 2"
  shows "\<not> fornecedorExisteNaRazao nfd nome (Some l)"
proof -
  let ?alvo = "normalizarTexto nfd nome" and ?n = "normalizarTexto nfd (Some l)"
  have fast: "\<not> str_includes ?n ?alvo"
    using encontrados_all [of ?n ?alvo] len two by auto
  have "\<not> alguma_linha (tokensAlvo ?alvo) (filter (\<lambda>l. l \<noteq> []) [?n])"
    using score_2_of_3 [OF len two] two_thirds_thresholds(1)
    by (simp add: alguma_linha_iff)
  then show ?thesis
    using fast by (simp add: fornecedorExisteNaRazao_def Let_def split_lines_single [OF one])
qed

lemma line_nonempty:
  assumes "l \<in> set (split_lines d)"
    and "0 < encontrados (tokensAlvo alvo) (normalizarTexto nfd (Some l))"
  shows "normalizarTexto nfd (Some l) \<noteq> []" and "\<not> falsy (Some d)"
proof -
  show n: "normalizarTexto nfd (Some l) \<noteq> []"
    using assms(2) encontrados_Nil [of alvo] by auto
  then have "l \<noteq> []" using normalizarTexto_falsy [OF falsy_Some_Nil] by auto
  with assms(1) have "d \<noteq> []" by auto
  then show "\<not> falsy (Some d)" by (simp add: falsy_def)
qed

lemma two_of_three_extracted:
  assumes len: "length (tokensAlvo (normalizarTexto nfd nome)) = 3"
    and l: "l \<in> set (split_lines d)"
    and two: "encontrados (tokensAlvo (normalizarTexto nfd nome)) (normalizarTexto nfd (Some l)) = 2"
  shows "linha_resultado l (normalizarTexto nfd (Some l)) (to_double (2 / 3))
           \<in> set (extrairLinhasFornecedor nfd (Some d) nome)"
proof -
  let ?tokens = "tokensAlvo (normalizarTexto nfd nome)"
  have t: "?tokens \<noteq> []" using len by auto
  have pos: "0 < encontrados ?tokens (normalizarTexto nfd (Some l))" using two by simp
  have n: "normalizarTexto nfd (Some l) \<noteq> []" and d: "\<not> falsy (Some d)"
    using line_nonempty [OF l pos] by auto
  have sc: "score_linha ?tokens (normalizarTexto nfd (Some l)) = to_double (2 / 3)"
    using len two by (rule score_2_of_3)
  have "linha_resultado l (normalizarTexto nfd (Some l))
          (score_linha ?tokens (normalizarTexto nfd (Some l)))
        \<in> set (linhas_loop nfd ?tokens (split_lines d))"
    using l t n by (rule linhas_loop_has) (simp only: sc two_thirds_thresholds(2))
  then show ?thesis
    using extrair_eq [OF d t] by (simp add: sc)
qed

lemma three_of_three_present:
  assumes len: "length (tokensAlvo (normalizarTexto nfd nome)) = 3"
    and l: "l \<in> set (split_lines d)"
    and three: "encontrados (tokensAlvo (normalizarTexto nfd nome)) (normalizarTexto nfd (Some l)) = 3"
  shows "fornecedorExisteNaRazao nfd nome (Some d)"
proof -
  let ?tokens = "tokensAlvo (normalizarTexto nfd nome)"
  have t: "?tokens \<noteq> []" using len by auto
  then have alvo: "normalizarTexto nfd nome \<noteq> []" using tokensAlvo_Nil by auto
  then have nome: "\<not> falsy nome" using normalizarTexto_falsy by blast
  have pos: "0 < encontrados ?tokens (normalizarTexto nfd (Some l))" using three by simp
  have n: "normalizarTexto nfd (Some l) \<noteq> []" and d: "\<not> falsy (Some d)"
    using line_nonempty [OF l pos] by auto
  have "js_ge (score_linha ?tokens (normalizarTexto nfd (Some l))) (to_double (7 / 10))"
    using score_3_of_3 [OF len three] two_thirds_thresholds(3) by simp
  then have "alguma_linha ?tokens (filter (\<lambda>l. l \<noteq> [])
      (map (\<lambda>linha. normalizarTexto nfd (Some linha)) (split_lines d)))"
    unfolding alguma_linha_iff using l n by auto
  then show ?thesis
    using nome d alvo t by (simp add: fornecedorExisteNaRazao_def Let_def)
qed

lemma floor_log2_1_3: "floor_log2 (1 / 3) = - 2"
  by (simp add: floor_log2_def bit_length_eval)

lemma double_1_3: "to_double (1 / 3) = Finite (6004799503160661 / 18014398509481984)"
  by (simp add: to_double_def floor_log2_1_3 pow2_def round_half_even_def Let_def)

lemma below_three_not_enough:
  assumes len: "length tokens = 3" and le: "encontrados tokens n \<le> 2"
  shows "\<not> js_ge (score_linha tokens n) (to_double (7 / 10))"
proof -
  from le consider "encontrados tokens n = 0" | "encontrados tokens n = 1"
    | "encontrados tokens n = 2"
    by linarith
  then show ?thesis
  proof cases
    case 1
    with len show ?thesis
      by (simp add: score_linha_def js_ge_def double_0_7) (simp add: to_double_def)
  next
    case 2
    with len show ?thesis
      by (simp add: score_linha_def js_ge_def double_0_7 double_1_3)
  next
    case 3
    with len show ?thesis
      by (simp add: score_linha_def js_ge_def double_0_7 double_2_3)
  qed
qed

lemma no_line_with_three_not_present:
  assumes len: "length (tokensAlvo (normalizarTexto nfd nome)) = 3"
    and fast: "\<not> str_includes (normalizarTexto nfd (Some d)) (normalizarTexto nfd nome)"
    and le: "\<forall>l\<in>set (split_lines d).
      encontrados (tokensAlvo (normalizarTexto nfd nome)) (normalizarTexto nfd (Some l)) \<le> 2"
  shows "\<not> fornecedorExisteNaRazao nfd nome (Some d)"
proof -
  let ?tokens = "tokensAlvo (normalizarTexto nfd nome)"
  have "\<not> alguma_linha ?tokens (filter (\<lambda>l. l \<noteq> [])
      (map (\<lambda>linha. normalizarTexto nfd (Some linha)) (split_lines d)))"
    unfolding alguma_linha_iff using le below_three_not_enough [OF len] by auto
  then show ?thesis
    using fast by (simp add: fornecedorExisteNaRazao_def Let_def)
qed

text \<open>
  Claim C2. The presence threshold \<open>0.7\<close> and the extraction threshold \<open>0.6\<close> differ.
  Let the normalized vendor name give exactly three tokens. A line that includes exactly
  two of them scores \<open>2 / 3\<close>, which is below \<open>0.7\<close> and at least \<open>0.6\<close>: as a document
  of its own it does not make \<open>fornecedorExisteNaRazao\<close> true (nor does any document
  that misses the fast path and has no line with all three tokens), and in any document
  it gives a line of \<open>extrairLinhasFornecedor\<close>, with that score. A line that includes
  all three tokens makes \<open>fornecedorExisteNaRazao\<close> true for any document that has it.
\<close>

theorem presence_and_extraction_thresholds:
  assumes "length (tokensAlvo (normalizarTexto nfd nome)) = 3"
  shows
   "(10 \<notin> set l2 \<and>
      encontrados (tokensAlvo (normalizarTexto nfd nome)) (normalizarTexto nfd (Some l2)) = 2 \<longrightarrow>
        \<not> fornecedorExisteNaRazao nfd nome (Some l2)) \<and>
    (\<not> str_includes (normalizarTexto nfd (Some d)) (normalizarTexto nfd nome) \<and>
     (\<forall>l\<in>set (split_lines d).
        encontrados (tokensAlvo (normalizarTexto nfd nome)) (normalizarTexto nfd (Some l)) \<le> 2) \<longrightarrow>
        \<not> fornecedorExisteNaRazao nfd nome (Some d)) \<and>
    (l2 \<in> set (split_lines d2) \<and>
      encontrados (tokensAlvo (normalizarTexto nfd nome)) (normalizarTexto nfd (Some l2)) = 2 \<longrightarrow>
        linha_resultado l2 (normalizarTexto nfd (Some l2)) (to_double (2 / 3))
          \<in> set (extrairLinhasFornecedor nfd (Some d2) nome)) \<and>
    (l3 \<in> set (split_lines d3) \<and>
      encontrados (tokensAlvo (normalizarTexto nfd nome)) (normalizarTexto nfd (Some l3)) = 3 \<longrightarrow>
        fornecedorExisteNaRazao nfd nome (Some d3)) \<and>
    \<not> js_ge (to_double (2 / 3)) (to_double (7 / 10)) \<and>
    js_ge (to_double (2 / 3)) (to_double (6 / 10))"
  using two_of_three_not_present [OF assms, of l2] two_of_three_extracted [OF assms, of l2 d2]
    three_of_three_present [OF assms, of l3 d3] two_thirds_thresholds(1,2)
    no_line_with_three_not_present [OF assms, of d]
  by blast

lemmas vendor_eval = js_def tokensAlvo_def trim_def is_space_def encontrados_def

lemma normalizar_comercial:
  "normalizarTexto nfd_ascii (Some (js ''Comercial ABC Ltda'')) = js ''comercial abc ltda''"
  by (simp add: normalizar_eval)

lemma tokens_comercial:
  "tokensAlvo (js ''comercial abc ltda'') = [js ''comercial'', js ''abc'', js ''ltda'']"
  by (simp add: js_def tokensAlvo_def trim_def is_space_def)

lemma normalizar_two_tokens:
  "normalizarTexto nfd_ascii (Some (js ''NF 123 COMERCIAL ABC 10,00''))
     = js ''nf 123 comercial abc 10 00''"
  by (simp add: normalizar_eval)

lemma normalizar_three_tokens:
  "normalizarTexto nfd_ascii (Some (js ''Ltda. ABC - Comercial''))
     = js ''ltda  abc   comercial''"
  by (simp add: normalizar_eval)

lemma encontrados_two:
  "encontrados [js ''comercial'', js ''abc'', js ''ltda''] (js ''nf 123 comercial abc 10 00'') = 2"
  by (simp add: encontrados_def js_def)

lemma encontrados_three:
  "encontrados [js ''comercial'', js ''abc'', js ''ltda''] (js ''ltda  abc   comercial'') = 3"
  by (simp add: encontrados_def js_def)

theorem presence_and_extraction_thresholds_witness:
  "length (tokensAlvo (normalizarTexto nfd_ascii (Some (js ''Comercial ABC Ltda'')))) = 3 \<and>
   10 \<notin> set (js ''NF 123 COMERCIAL ABC 10,00'') \<and>
   js ''NF 123 COMERCIAL ABC 10,00''
     \<in> set (split_lines (js ''cabecalho'' @ 10 # js ''NF 123 COMERCIAL ABC 10,00'')) \<and>
   js ''Ltda. ABC - Comercial''
     \<in> set (split_lines (js ''cabecalho'' @ 10 # js ''Ltda. ABC - Comercial'')) \<and>
   encontrados (tokensAlvo (normalizarTexto nfd_ascii (Some (js ''Comercial ABC Ltda''))))
     (normalizarTexto nfd_ascii (Some (js ''NF 123 COMERCIAL ABC 10,00''))) = 2 \<and>
   encontrados (tokensAlvo (normalizarTexto nfd_ascii (Some (js ''Comercial ABC Ltda''))))
     (normalizarTexto nfd_ascii (Some (js ''Ltda. ABC - Comercial''))) = 3 \<and>
   \<not> fornecedorExisteNaRazao nfd_ascii (Some (js ''Comercial ABC Ltda''))
       (Some (js ''NF 123 COMERCIAL ABC 10,00'')) \<and>
   \<not> fornecedorExisteNaRazao nfd_ascii (Some (js ''Comercial ABC Ltda''))
       (Some (js ''cabecalho'' @ 10 # js ''NF 123 COMERCIAL ABC 10,00'')) \<and>
   linha_resultado (js ''NF 123 COMERCIAL ABC 10,00'') (js ''nf 123 comercial abc 10 00'')
       (to_double (2 / 3))
     \<in> set (extrairLinhasFornecedor nfd_ascii
         (Some (js ''cabecalho'' @ 10 # js ''NF 123 COMERCIAL ABC 10,00''))
         (Some (js ''Comercial ABC Ltda''))) \<and>
   fornecedorExisteNaRazao nfd_ascii (Some (js ''Comercial ABC Ltda''))
       (Some (js ''cabecalho'' @ 10 # js ''Ltda. ABC - Comercial''))"
proof -
  let ?nome = "Some (js ''Comercial ABC Ltda'')"
  let ?l2 = "js ''NF 123 COMERCIAL ABC 10,00''" and ?l3 = "js ''Ltda. ABC - Comercial''"
  let ?d2 = "js ''cabecalho'' @ 10 # js ''NF 123 COMERCIAL ABC 10,00''"
  let ?d3 = "js ''cabecalho'' @ 10 # js ''Ltda. ABC - Comercial''"
  have len: "length (tokensAlvo (normalizarTexto nfd_ascii ?nome)) = 3"
    by (simp add: normalizar_comercial tokens_comercial)
  have one: "10 \<notin> set ?l2" by (simp add: js_def)
  have in2: "?l2 \<in> set (split_lines ?d2)" by (simp add: js_def)
  have in3: "?l3 \<in> set (split_lines ?d3)" by (simp add: js_def)
  have two: "encontrados (tokensAlvo (normalizarTexto nfd_ascii ?nome))
      (normalizarTexto nfd_ascii (Some ?l2)) = 2"
    by (simp only: normalizar_comercial tokens_comercial normalizar_two_tokens encontrados_two)
  have three: "encontrados (tokensAlvo (normalizarTexto nfd_ascii ?nome))
      (normalizarTexto nfd_ascii (Some ?l3)) = 3"
    by (simp only: normalizar_comercial tokens_comercial normalizar_three_tokens encontrados_three)
  have fast: "\<not> str_includes (normalizarTexto nfd_ascii (Some ?d2)) (normalizarTexto nfd_ascii ?nome)"
    by (simp add: normalizar_eval)
  have hdr: "encontrados (tokensAlvo (normalizarTexto nfd_ascii ?nome))
      (normalizarTexto nfd_ascii (Some (js ''cabecalho''))) = 0"
    by (simp add: normalizar_comercial tokens_comercial) (simp add: normalizar_eval encontrados_def)
  have lines2: "split_lines ?d2 = [js ''cabecalho'', ?l2]" by (simp add: js_def)
  have all2: "\<forall>l\<in>set (split_lines ?d2).
      encontrados (tokensAlvo (normalizarTexto nfd_ascii ?nome)) (normalizarTexto nfd_ascii (Some l)) \<le> 2"
    unfolding lines2 using hdr two by simp
  note t = presence_and_extraction_thresholds [OF len, of ?l2 ?d2 ?d2 ?l3 ?d3]
  from t fast all2 have a': "\<not> fornecedorExisteNaRazao nfd_ascii ?nome (Some ?d2)" by blast
  from t one two have a: "\<not> fornecedorExisteNaRazao nfd_ascii ?nome (Some ?l2)" by blast
  from t in2 two have "linha_resultado ?l2 (normalizarTexto nfd_ascii (Some ?l2)) (to_double (2 / 3))
     \<in> set (extrairLinhasFornecedor nfd_ascii (Some ?d2) ?nome)" by blast
  then have b: "linha_resultado ?l2 (js ''nf 123 comercial abc 10 00'') (to_double (2 / 3))
     \<in> set (extrairLinhasFornecedor nfd_ascii (Some ?d2) ?nome)"
    by (simp only: normalizar_two_tokens)
  from t in3 three have c: "fornecedorExisteNaRazao nfd_ascii ?nome (Some ?d3)" by blast
  from len one in2 in3 two three a a' b c show ?thesis by blast
qed


section \<open>montarIndicadoresFornecedor: the verdict\<close>

lemma parse_Some_finite: "parseValorMonetario v = Some x \<Longrightarrow> isFinite x"
  by (auto simp: parseValorMonetario_def Let_def split: if_splits)

lemma saldos_loop_finite: "s \<in> set (saldos_loop ls) \<Longrightarrow> isFinite (numero s)"
proof (induction ls)
  case Nil
  then show ?case by simp
next
  case (Cons l ls)
  then show ?case
    by (auto split: if_splits option.splits dest: parse_Some_finite)
qed

lemma isFinite_iff: "isFinite x \<longleftrightarrow> (\<exists>q. x = Finite q)"
  by (cases x) (auto simp: isFinite_def)

lemma min2_Finite: "min2 (Finite a) (Finite b) = Finite (min a b)"
  by (simp add: min2_def min_def)

lemma max2_Finite: "max2 (Finite a) (Finite b) = Finite (max a b)"
  by (simp add: max2_def max_def)

lemma foldl_min2_finite:
  "list_all isFinite xs \<Longrightarrow>
   foldl min2 (Finite a) xs = Finite (Min (insert a (rat_of ` set xs)))"
proof (induction xs arbitrary: a)
  case Nil
  then show ?case by simp
next
  case (Cons x xs)
  then obtain b where x: "x = Finite b" by (auto simp: isFinite_iff)
  from Cons.prems have fin: "list_all isFinite xs" by simp
  have "foldl min2 (Finite a) (x # xs) = foldl min2 (Finite (min a b)) xs"
    by (simp add: x min2_Finite)
  also have "\<dots> = Finite (Min (insert (min a b) (rat_of ` set xs)))"
    by (rule Cons.IH [OF fin])
  also have "Min (insert (min a b) (rat_of ` set xs)) = Min (insert a (rat_of ` set (x # xs)))"
  proof (cases "set xs = {}")
    case True
    then show ?thesis by (simp add: x)
  next
    case False
    then have "Min (insert a (insert b (rat_of ` set xs)))
        = min a (min b (Min (rat_of ` set xs)))"
      by simp
    moreover from False have "Min (insert (min a b) (rat_of ` set xs))
        = min (min a b) (Min (rat_of ` set xs))"
      by simp
    ultimately show ?thesis by (simp add: x min.assoc)
  qed
  finally show ?case .
qed

lemma foldl_max2_finite:
  "list_all isFinite xs \<Longrightarrow>
   foldl max2 (Finite a) xs = Finite (Max (insert a (rat_of ` set xs)))"
proof (induction xs arbitrary: a)
  case Nil
  then show ?case by simp
next
  case (Cons x xs)
  then obtain b where x: "x = Finite b" by (auto simp: isFinite_iff)
  from Cons.prems have fin: "list_all isFinite xs" by simp
  have "foldl max2 (Finite a) (x # xs) = foldl max2 (Finite (max a b)) xs"
    by (simp add: x max2_Finite)
  also have "\<dots> = Finite (Max (insert (max a b) (rat_of ` set xs)))"
    by (rule Cons.IH [OF fin])
  also have "Max (insert (max a b) (rat_of ` set xs)) = Max (insert a (rat_of ` set (x # xs)))"
  proof (cases "set xs = {}")
    case True
    then show ?thesis by (simp add: x)
  next
    case False
    then have "Max (insert a (insert b (rat_of ` set xs)))
        = max a (max b (Max (rat_of ` set xs)))"
      by simp
    moreover from False have "Max (insert (max a b) (rat_of ` set xs))
        = max (max a b) (Max (rat_of ` set xs))"
      by simp
    ultimately show ?thesis by (simp add: x max.assoc)
  qed
  finally show ?case .
qed

lemma Math_min_finite:
  assumes "list_all isFinite xs" and "xs \<noteq> []"
  shows "Math_min xs = Finite (Min (rat_of ` set xs))"
proof -
  from assms obtain b ys where xs: "xs = Finite b # ys" and ys: "list_all isFinite ys"
    by (cases xs) (auto simp: isFinite_iff)
  have "Math_min xs = foldl min2 (Finite b) ys"
    by (simp add: Math_min_def xs min2_def)
  then show ?thesis
    by (simp add: foldl_min2_finite [OF ys] xs)
qed

lemma Math_max_finite:
  assumes "list_all isFinite xs" and "xs \<noteq> []"
  shows "Math_max xs = Finite (Max (rat_of ` set xs))"
proof -
  from assms obtain b ys where xs: "xs = Finite b # ys" and ys: "list_all isFinite ys"
    by (cases xs) (auto simp: isFinite_iff)
  have "Math_max xs = foldl max2 (Finite b) ys"
    by (simp add: Math_max_def xs max2_def)
  then show ?thesis
    by (simp add: foldl_max2_finite [OF ys] xs)
qed

lemma to_double_nonneg:
  assumes "0 \<le> q"
  shows "to_double q = PosInf \<or> (\<exists>r. to_double q = Finite r \<and> 0 \<le> r)"
proof (cases "q = 0")
  case True
  then show ?thesis by (simp add: to_double_def)
next
  case False
  with assms have pos: "0 < q" by simp
  define e where "e = max (floor_log2 q - 52) (- 1074)"
  define v where "v = of_int (round_half_even (q / pow2 e)) * pow2 e"
  have p: "0 < pow2 e" by (simp add: pow2_def)
  then have "0 \<le> q / pow2 e" using pos by simp
  then have "0 \<le> round_half_even (q / pow2 e)" by (rule round_half_even_nonneg)
  with p have "0 \<le> v" by (simp add: v_def)
  moreover have "to_double q = (if pow2 1024 \<le> v then PosInf else Finite v)"
    using pos by (simp add: to_double_def Let_def e_def [symmetric] v_def)
  ultimately show ?thesis by auto
qed

lemma Math_abs_sub:
  assumes "b \<le> a"
  shows "Math_abs (js_sub (Finite a) (Finite b)) = js_sub (Finite a) (Finite b)"
proof -
  have "js_sub (Finite a) (Finite b) = to_double (a - b)" by (simp add: js_sub_def)
  moreover have "0 \<le> a - b" using assms by simp
  ultimately show ?thesis using to_double_nonneg [of "a - b"] by auto
qed

lemma map_of_keyed:
  "k \<in> set ks \<Longrightarrow> map_of (map (\<lambda>k. (k, f k)) ks) k = Some (f k)"
  by (induction ks) auto

lemma avaliar_keyed:
  fixes f :: "jsstring \<Rightarrow> number list"
  assumes fin: "\<forall>k\<in>set ks. list_all isFinite (f k)" and ne: "\<forall>k\<in>set ks. f k \<noteq> []"
  shows "avaliar (map (\<lambda>k. (k, f k)) ks) =
     (if length ks < 2
      then \<lparr> status = dados_insuficientes, valorReferenciaAproximado = None \<rparr>
      else if js_le (js_sub (Finite (Max (rat_of ` set (concat (map f ks)))))
                            (Finite (Min (rat_of ` set (concat (map f ks))))))
                    (to_double (1 / 10))
      then \<lparr> status = saldos_iguais,
             valorReferenciaAproximado = Some (toFixed2_Number
               (js_div (js_add (Finite (Min (rat_of ` set (concat (map f ks)))))
                               (Finite (Max (rat_of ` set (concat (map f ks))))))
                       (Finite 2))) \<rparr>
      else \<lparr> status = saldos_diferentes, valorReferenciaAproximado = None \<rparr>)"
proof (cases "length ks < 2")
  case True
  then show ?thesis by (simp add: avaliar_def Let_def comp_def)
next
  case False
  let ?al = "map (\<lambda>k. (k, f k)) ks"
  let ?todos = "concat (map f ks)"
  have keys: "map fst ?al = ks" by (simp add: comp_def)
  have "map (\<lambda>k. case map_of ?al k of Some vs \<Rightarrow> vs | None \<Rightarrow> []) ks = map f ks"
    by (rule map_cong) (simp_all add: map_of_keyed)
  then have todos: "concat (map (\<lambda>k. case map_of ?al k of Some vs \<Rightarrow> vs | None \<Rightarrow> [])
      (map fst ?al)) = ?todos"
    by (simp only: keys)
  have fin': "list_all isFinite ?todos"
    using fin by (auto simp: list_all_iff)
  from False obtain k where "k \<in> set ks" by (cases ks) auto
  with ne have ne': "?todos \<noteq> []" by auto
  have mn: "Math_min ?todos = Finite (Min (rat_of ` set ?todos))"
    using fin' ne' by (rule Math_min_finite)
  have mx: "Math_max ?todos = Finite (Max (rat_of ` set ?todos))"
    using fin' ne' by (rule Math_max_finite)
  from ne' obtain x where x: "x \<in> rat_of ` set ?todos" by (cases ?todos) auto
  have "Min (rat_of ` set ?todos) \<le> x" using x by (intro Min_le) auto
  moreover have "x \<le> Max (rat_of ` set ?todos)" using x by (intro Max_ge) auto
  ultimately have "Min (rat_of ` set ?todos) \<le> Max (rat_of ` set ?todos)" by simp
  then have ab: "Math_abs (js_sub (Finite (Max (rat_of ` set ?todos)))
        (Finite (Min (rat_of ` set ?todos))))
      = js_sub (Finite (Max (rat_of ` set ?todos))) (Finite (Min (rat_of ` set ?todos)))"
    by (rule Math_abs_sub)
  have len: "2 \<le> length (map fst ?al)" using False by simp
  show ?thesis
    unfolding avaliar_def Let_def todos mn mx ab
    using False len by (simp add: isFinite_def)
qed

lemma montar_parsed_balances:
  "parsed_balances (montarIndicadoresFornecedor nfd nome textos) k =
     (if k \<in> set chavesRelatorios
      then map numero (saldos_loop (extrairLinhasFornecedor nfd
             (Some (if falsy (textos k) then [] else the (textos k))) nome))
      else [])"
  by (simp add: parsed_balances_def montar_eq)

lemma montar_present:
  "present (montarIndicadoresFornecedor nfd nome textos) =
     filter (\<lambda>k. saldos_loop (extrairLinhasFornecedor nfd
             (Some (if falsy (textos k) then [] else the (textos k))) nome) \<noteq> [])
       chavesRelatorios"
  unfolding present_def by (rule filter_cong) (simp_all add: montar_parsed_balances)

lemma montar_pooled:
  "pooled (montarIndicadoresFornecedor nfd nome textos) =
     concat (map (\<lambda>k. map numero (saldos_loop (extrairLinhasFornecedor nfd
             (Some (if falsy (textos k) then [] else the (textos k))) nome)))
       (present (montarIndicadoresFornecedor nfd nome textos)))"
proof -
  have "map (parsed_balances (montarIndicadoresFornecedor nfd nome textos))
          (present (montarIndicadoresFornecedor nfd nome textos))
      = map (\<lambda>k. map numero (saldos_loop (extrairLinhasFornecedor nfd
             (Some (if falsy (textos k) then [] else the (textos k))) nome)))
          (present (montarIndicadoresFornecedor nfd nome textos))"
    by (rule map_cong) (auto simp: montar_parsed_balances present_def)
  then show ?thesis by (simp only: pooled_def)
qed

lemma pooled_finite: "list_all isFinite (pooled (montarIndicadoresFornecedor nfd nome textos))"
  unfolding montar_pooled by (auto simp: list_all_iff dest: saldos_loop_finite)

lemma pooled_nonempty:
  assumes "present (montarIndicadoresFornecedor nfd nome textos) \<noteq> []"
  shows "pooled (montarIndicadoresFornecedor nfd nome textos) \<noteq> []"
proof -
  from assms obtain k where "k \<in> set (present (montarIndicadoresFornecedor nfd nome textos))"
    by (cases "present (montarIndicadoresFornecedor nfd nome textos)") auto
  then have "parsed_balances (montarIndicadoresFornecedor nfd nome textos) k \<noteq> []
      \<and> k \<in> set (present (montarIndicadoresFornecedor nfd nome textos))"
    by (simp add: present_def)
  then show ?thesis unfolding pooled_def by auto
qed

lemma montar_avaliacao:
  "avaliacaoAutomaticaSaldo (montarIndicadoresFornecedor nfd nome textos) =
     (if length (present (montarIndicadoresFornecedor nfd nome textos)) < 2
      then \<lparr> status = dados_insuficientes, valorReferenciaAproximado = None \<rparr>
      else if js_le (js_sub (pooled_max (montarIndicadoresFornecedor nfd nome textos))
                            (pooled_min (montarIndicadoresFornecedor nfd nome textos)))
                    (to_double (1 / 10))
      then \<lparr> status = saldos_iguais,
             valorReferenciaAproximado = Some (toFixed2_Number
               (js_div (js_add (pooled_min (montarIndicadoresFornecedor nfd nome textos))
                               (pooled_max (montarIndicadoresFornecedor nfd nome textos)))
                       (Finite 2))) \<rparr>
      else \<lparr> status = saldos_diferentes, valorReferenciaAproximado = None \<rparr>)"
proof -
  let ?r = "montarIndicadoresFornecedor nfd nome textos"
  let ?f = "\<lambda>k. map numero (saldos_loop (extrairLinhasFornecedor nfd
             (Some (if falsy (textos k) then [] else the (textos k))) nome))"
  have "avaliacaoAutomaticaSaldo ?r = avaliar (map (\<lambda>k. (k, ?f k))
      (filter (\<lambda>k. saldos_loop (extrairLinhasFornecedor nfd
             (Some (if falsy (textos k) then [] else the (textos k))) nome) \<noteq> [])
       chavesRelatorios))"
    by (simp only: montar_eq [of nfd nome textos] indicadores_resultado.select_convs)
  then have av: "avaliacaoAutomaticaSaldo ?r = avaliar (map (\<lambda>k. (k, ?f k)) (present ?r))"
    by (simp only: montar_present)
  have fin: "\<forall>k\<in>set (present ?r). list_all isFinite (?f k)"
    by (auto simp: list_all_iff dest: saldos_loop_finite)
  have ne: "\<forall>k\<in>set (present ?r). ?f k \<noteq> []"
    by (simp add: montar_present)
  have po: "concat (map ?f (present ?r)) = pooled ?r"
    by (rule montar_pooled [symmetric])
  show ?thesis
    unfolding av avaliar_keyed [OF fin ne] po pooled_min_def pooled_max_def ..
qed

lemma pooled_min_max:
  assumes "x \<in> set (pooled (montarIndicadoresFornecedor nfd nome textos))"
  shows "js_le (pooled_min (montarIndicadoresFornecedor nfd nome textos)) x
       \<and> js_le x (pooled_max (montarIndicadoresFornecedor nfd nome textos))"
proof -
  let ?xs = "pooled (montarIndicadoresFornecedor nfd nome textos)"
  from assms pooled_finite [of nfd nome textos] obtain q where x: "x = Finite q"
    by (auto simp: list_all_iff isFinite_iff)
  with assms have "q \<in> rat_of ` set ?xs" by force
  then have "Min (rat_of ` set ?xs) \<le> q" and "q \<le> Max (rat_of ` set ?xs)"
    by simp_all
  then show ?thesis by (simp add: x pooled_min_def pooled_max_def)
qed

lemma pooled_min_max_mem:
  assumes "present (montarIndicadoresFornecedor nfd nome textos) \<noteq> []"
  shows "pooled_min (montarIndicadoresFornecedor nfd nome textos)
           \<in> set (pooled (montarIndicadoresFornecedor nfd nome textos))
       \<and> pooled_max (montarIndicadoresFornecedor nfd nome textos)
           \<in> set (pooled (montarIndicadoresFornecedor nfd nome textos))"
proof -
  let ?xs = "pooled (montarIndicadoresFornecedor nfd nome textos)"
  have ne: "rat_of ` set ?xs \<noteq> {}" using pooled_nonempty [OF assms] by simp
  have fin_mem: "Finite q \<in> set ?xs" if "q \<in> rat_of ` set ?xs" for q
  proof -
    from that obtain x where "x \<in> set ?xs" and "q = rat_of x" by auto
    moreover from this pooled_finite [of nfd nome textos] obtain q' where "x = Finite q'"
      by (auto simp: list_all_iff isFinite_iff)
    ultimately show ?thesis by simp
  qed
  have "Min (rat_of ` set ?xs) \<in> rat_of ` set ?xs" using ne by (intro Min_in) auto
  moreover have "Max (rat_of ` set ?xs) \<in> rat_of ` set ?xs" using ne by (intro Max_in) auto
  ultimately show ?thesis unfolding pooled_min_def pooled_max_def using fin_mem by blast
qed

text \<open>
  The verdict that the code computes, for every input. Let \<open>present\<close> be the sources
  with at least one parsed balance. With fewer than two of them the verdict is
  \<open>dados_insuficientes\<close>. Otherwise, with \<open>min\<close> and \<open>max\<close> the least and the greatest
  of the balances pooled over the present sources (both are pooled balances, and every
  pooled balance lies between them), the verdict is \<open>saldos_iguais\<close> when the Number
  \<open>max - min\<close> is at most the Number \<open>0.1\<close>, with the reference value
  \<open>Number(((min + max) / 2).toFixed(2))\<close>, and \<open>saldos_diferentes\<close> when it is not. The
  subtraction and the comparison are those of binary64: the Number \<open>max - min\<close> is the
  difference of the two Numbers rounded, and the Number \<open>0.1\<close> is not one tenth, so
  this is not the comparison of the difference of the two amounts with ten cents.
\<close>

lemma montarIndicadores_verdict:
  "avaliacaoAutomaticaSaldo (montarIndicadoresFornecedor nfd nome textos) =
     (if length (present (montarIndicadoresFornecedor nfd nome textos)) < 2
      then \<lparr> status = dados_insuficientes, valorReferenciaAproximado = None \<rparr>
      else if js_le (js_sub (pooled_max (montarIndicadoresFornecedor nfd nome textos))
                            (pooled_min (montarIndicadoresFornecedor nfd nome textos)))
                    (to_double (1 / 10))
      then \<lparr> status = saldos_iguais,
             valorReferenciaAproximado = Some (toFixed2_Number
               (js_div (js_add (pooled_min (montarIndicadoresFornecedor nfd nome textos))
                               (pooled_max (montarIndicadoresFornecedor nfd nome textos)))
                       (Finite 2))) \<rparr>
      else \<lparr> status = saldos_diferentes, valorReferenciaAproximado = None \<rparr>) \<and>
   (2 \<le> length (present (montarIndicadoresFornecedor nfd nome textos)) \<longrightarrow>
      pooled_min (montarIndicadoresFornecedor nfd nome textos)
        \<in> set (pooled (montarIndicadoresFornecedor nfd nome textos)) \<and>
      pooled_max (montarIndicadoresFornecedor nfd nome textos)
        \<in> set (pooled (montarIndicadoresFornecedor nfd nome textos)) \<and>
      (\<forall>x\<in>set (pooled (montarIndicadoresFornecedor nfd nome textos)).
         js_le (pooled_min (montarIndicadoresFornecedor nfd nome textos)) x \<and>
         js_le x (pooled_max (montarIndicadoresFornecedor nfd nome textos))))"
proof -
  have "present (montarIndicadoresFornecedor nfd nome textos) \<noteq> []"
    if "2 \<le> length (present (montarIndicadoresFornecedor nfd nome textos))"
    using that by auto
  then show ?thesis
    using montar_avaliacao [of nfd nome textos] pooled_min_max [of _ nfd nome textos]
      pooled_min_max_mem [of nfd nome textos]
    by blast
qed

lemma floor_log2_42152: "floor_log2 42152 = 15"
  by (simp add: floor_log2_def bit_length_eval)

lemma double_42152: "to_double 42152 = Finite 42152"
  by (simp add: to_double_def floor_log2_42152 pow2_def round_half_even_def Let_def)

lemma floor_log2_0_1: "floor_log2 (1 / 10) = - 4"
  by (simp add: floor_log2_def bit_length_eval)

lemma double_0_1: "to_double (1 / 10) = Finite (3602879701896397 / 36028797018963968)"
  by (simp add: to_double_def floor_log2_0_1 pow2_def round_half_even_def Let_def)

lemma floor_log2_acme_diff: "floor_log2 (1374389535 / 137438953472) = - 7"
  by (simp add: floor_log2_def bit_length_eval)

lemma double_acme_diff:
  "to_double (1374389535 / 137438953472) = Finite (1374389535 / 137438953472)"
  by (simp add: to_double_def floor_log2_acme_diff pow2_def round_half_even_def Let_def)

lemma floor_log2_acme_sum: "floor_log2 (11586652159113953 / 137438953472) = 16"
  by (simp add: floor_log2_def bit_length_eval)

lemma double_acme_sum:
  "to_double (11586652159113953 / 137438953472) = Finite (362082879972311 / 4294967296)"
  by (simp add: to_double_def floor_log2_acme_sum pow2_def round_half_even_def Let_def)

lemma floor_log2_acme_half: "floor_log2 (362082879972311 / 8589934592) = 15"
  by (simp add: floor_log2_def bit_length_eval)

lemma double_acme_half:
  "to_double (362082879972311 / 8589934592) = Finite (362082879972311 / 8589934592)"
  by (simp add: to_double_def floor_log2_acme_half pow2_def round_half_even_def Let_def)

lemma normalizar_ACME_Distribuidora:
  "normalizarTexto nfd_ascii (Some (js ''ACME Distribuidora'')) = js ''acme distribuidora''"
  by (simp add: normalizar_eval)

lemma tokens_acme_distribuidora:
  "tokensAlvo (js ''acme distribuidora'') = [js ''acme'', js ''distribuidora'']"
  by (simp add: js_def tokensAlvo_def trim_def is_space_def)

lemma extrair_acme_razao:
  "extrairLinhasFornecedor nfd_ascii (Some (js ''ACME DISTRIBUIDORA LTDA 10/2024 42.151,99'')) (Some (js ''ACME Distribuidora'')) =
     [\<lparr> linhaOriginal = js ''ACME DISTRIBUIDORA LTDA 10/2024 42.151,99'', linhaNormalizada = js ''acme distribuidora ltda 10 2024 42 151 99'',
        scoreMatch = Finite 1, numerosMonetarios = [js ''42.151,99''],
        ultimoNumero = Some (js ''42.151,99'') \<rparr>]"
proof -
  have a: "falsy (Some (js ''ACME DISTRIBUIDORA LTDA 10/2024 42.151,99'')) = False" "falsy (Some (js ''ACME Distribuidora'')) = False"
    by (simp_all add: falsy_def js_def)
  have b: "js ''acme distribuidora'' \<noteq> []" "js ''acme distribuidora ltda 10 2024 42 151 99'' \<noteq> []" "js ''42.151,99'' \<noteq> []"
    by (simp_all add: js_def)
  have l: "split_lines (js ''ACME DISTRIBUIDORA LTDA 10/2024 42.151,99'') = [js ''ACME DISTRIBUIDORA LTDA 10/2024 42.151,99'']" by (simp add: js_def)
  have n: "normalizarTexto nfd_ascii (Some (js ''ACME DISTRIBUIDORA LTDA 10/2024 42.151,99'')) = js ''acme distribuidora ltda 10 2024 42 151 99''"
    by (simp add: normalizar_eval)
  have sc: "score_linha [js ''acme'', js ''distribuidora''] (js ''acme distribuidora ltda 10 2024 42 151 99'') = Finite 1"
    by (simp add: score_linha_def encontrados_def js_def double_1)
  have re: "regexValor_all (js ''ACME DISTRIBUIDORA LTDA 10/2024 42.151,99'') = [js ''42.151,99'']"
    by (simp add: js_def regex_eval)
  have tr: "trim (js ''ACME DISTRIBUIDORA LTDA 10/2024 42.151,99'') = js ''ACME DISTRIBUIDORA LTDA 10/2024 42.151,99''" by (simp add: js_def trim_def is_space_def)
  show ?thesis
    by (simp add: extrairLinhasFornecedor_def a b normalizar_ACME_Distribuidora
        tokens_acme_distribuidora l n sc double_0_6 js_ge_def linha_resultado_def re tr Let_def)
qed

lemma extrair_acme_contas:
  "extrairLinhasFornecedor nfd_ascii (Some (js ''acme distribuidora - saldo 42.152,00'')) (Some (js ''ACME Distribuidora'')) =
     [\<lparr> linhaOriginal = js ''acme distribuidora - saldo 42.152,00'', linhaNormalizada = js ''acme distribuidora   saldo 42 152 00'',
        scoreMatch = Finite 1, numerosMonetarios = [js ''42.152,00''],
        ultimoNumero = Some (js ''42.152,00'') \<rparr>]"
proof -
  have a: "falsy (Some (js ''acme distribuidora - saldo 42.152,00'')) = False" "falsy (Some (js ''ACME Distribuidora'')) = False"
    by (simp_all add: falsy_def js_def)
  have b: "js ''acme distribuidora'' \<noteq> []" "js ''acme distribuidora   saldo 42 152 00'' \<noteq> []" "js ''42.152,00'' \<noteq> []"
    by (simp_all add: js_def)
  have l: "split_lines (js ''acme distribuidora - saldo 42.152,00'') = [js ''acme distribuidora - saldo 42.152,00'']" by (simp add: js_def)
  have n: "normalizarTexto nfd_ascii (Some (js ''acme distribuidora - saldo 42.152,00'')) = js ''acme distribuidora   saldo 42 152 00''"
    by (simp add: normalizar_eval)
  have sc: "score_linha [js ''acme'', js ''distribuidora''] (js ''acme distribuidora   saldo 42 152 00'') = Finite 1"
    by (simp add: score_linha_def encontrados_def js_def double_1)
  have re: "regexValor_all (js ''acme distribuidora - saldo 42.152,00'') = [js ''42.152,00'']"
    by (simp add: js_def regex_eval)
  have tr: "trim (js ''acme distribuidora - saldo 42.152,00'') = js ''acme distribuidora - saldo 42.152,00''" by (simp add: js_def trim_def is_space_def)
  show ?thesis
    by (simp add: extrairLinhasFornecedor_def a b normalizar_ACME_Distribuidora
        tokens_acme_distribuidora l n sc double_0_6 js_ge_def linha_resultado_def re tr Let_def)
qed

lemma parse_42152: "parseValorMonetario (Some (js ''42.152,00'')) = Some (Finite 42152)"
  by (simp add: parseValorMonetario_def falsy_def js_def limpo_def parseFloat_def is_digit_def
        digits_value_def Let_def isFinite_def double_42152)

lemma saldos_acme_razao:
  "map numero (saldos_loop (extrairLinhasFornecedor nfd_ascii (Some (js ''ACME DISTRIBUIDORA LTDA 10/2024 42.151,99''))
      (Some (js ''ACME Distribuidora'')))) = [Finite (5793325392362209 / 137438953472)]"
proof -
  have "falsy (Some (js ''42.151,99'')) = False" by (simp add: falsy_def js_def)
  then show ?thesis by (simp add: extrair_acme_razao parse_eval_1 double_42151_99)
qed

lemma saldos_acme_contas:
  "map numero (saldos_loop (extrairLinhasFornecedor nfd_ascii (Some (js ''acme distribuidora - saldo 42.152,00''))
      (Some (js ''ACME Distribuidora'')))) = [Finite 42152]"
proof -
  have "falsy (Some (js ''42.152,00'')) = False" by (simp add: falsy_def js_def)
  then show ?thesis by (simp add: extrair_acme_contas parse_42152)
qed

lemma textos_acme_keys:
  "textos_acme (js ''balancete'') = None"
  "textos_acme (js ''contas_pagar'') = Some (js ''acme distribuidora - saldo 42.152,00'')"
  "textos_acme (js ''razao'') = Some (js ''ACME DISTRIBUIDORA LTDA 10/2024 42.151,99'')"
  by (simp_all add: textos_acme_def js_def)

lemma parsed_acme:
  "parsed_balances (montarIndicadoresFornecedor nfd_ascii (Some (js ''ACME Distribuidora''))
      textos_acme) (js ''balancete'') = []"
  "parsed_balances (montarIndicadoresFornecedor nfd_ascii (Some (js ''ACME Distribuidora''))
      textos_acme) (js ''contas_pagar'') = [Finite 42152]"
  "parsed_balances (montarIndicadoresFornecedor nfd_ascii (Some (js ''ACME Distribuidora''))
      textos_acme) (js ''razao'') = [Finite (5793325392362209 / 137438953472)]"
proof -
  have f: "falsy None" "\<not> falsy (Some (js ''acme distribuidora - saldo 42.152,00''))" "\<not> falsy (Some (js ''ACME DISTRIBUIDORA LTDA 10/2024 42.151,99''))"
    by (simp_all add: falsy_def js_def)
  have k: "js ''balancete'' \<in> set chavesRelatorios" "js ''contas_pagar'' \<in> set chavesRelatorios"
    "js ''razao'' \<in> set chavesRelatorios"
    by (simp_all add: chavesRelatorios_def)
  show "parsed_balances (montarIndicadoresFornecedor nfd_ascii (Some (js ''ACME Distribuidora''))
      textos_acme) (js ''balancete'') = []"
    by (simp only: montar_parsed_balances k if_True textos_acme_keys f)
       (simp add: extrair_falsy falsy_Some_Nil)
  show "parsed_balances (montarIndicadoresFornecedor nfd_ascii (Some (js ''ACME Distribuidora''))
      textos_acme) (js ''contas_pagar'') = [Finite 42152]"
    by (simp only: montar_parsed_balances k if_True textos_acme_keys f if_False option.sel
        saldos_acme_contas)
  show "parsed_balances (montarIndicadoresFornecedor nfd_ascii (Some (js ''ACME Distribuidora''))
      textos_acme) (js ''razao'') = [Finite (5793325392362209 / 137438953472)]"
    by (simp only: montar_parsed_balances k if_True textos_acme_keys f if_False option.sel
        saldos_acme_razao)
qed

lemma present_acme:
  "present (montarIndicadoresFornecedor nfd_ascii (Some (js ''ACME Distribuidora'')) textos_acme)
     = [js ''contas_pagar'', js ''razao'']"
  by (simp add: present_def chavesRelatorios_def parsed_acme)

lemma pooled_acme:
  "pooled (montarIndicadoresFornecedor nfd_ascii (Some (js ''ACME Distribuidora'')) textos_acme)
     = [Finite 42152, Finite (5793325392362209 / 137438953472)]"
  by (simp add: pooled_def present_acme parsed_acme)

lemma montarIndicadores_verdict_acme:
  "2 \<le> length (present
     (montarIndicadoresFornecedor nfd_ascii (Some (js ''ACME Distribuidora'')) textos_acme)) \<and>
   pooled (montarIndicadoresFornecedor nfd_ascii (Some (js ''ACME Distribuidora'')) textos_acme)
     = [to_double 42152, to_double (4215199 / 100)] \<and>
   avaliacaoAutomaticaSaldo
     (montarIndicadoresFornecedor nfd_ascii (Some (js ''ACME Distribuidora'')) textos_acme)
     = \<lparr> status = saldos_iguais,
         valorReferenciaAproximado = Some (to_double (4215199 / 100)) \<rparr>"
proof -
  let ?r = "montarIndicadoresFornecedor nfd_ascii (Some (js ''ACME Distribuidora'')) textos_acme"
  have mn: "pooled_min ?r = Finite (5793325392362209 / 137438953472)"
    by (simp add: pooled_min_def pooled_acme)
  have mx: "pooled_max ?r = Finite 42152"
    by (simp add: pooled_max_def pooled_acme)
  have len: "2 \<le> length (present ?r)" by (simp add: present_acme)
  have sub: "js_sub (Finite 42152) (Finite (5793325392362209 / 137438953472))
      = Finite (1374389535 / 137438953472)"
    by (simp add: js_sub_def double_acme_diff)
  have le: "js_le (Finite (1374389535 / 137438953472)) (to_double (1 / 10))"
    by (simp add: double_0_1)
  have add: "js_add (Finite (5793325392362209 / 137438953472)) (Finite 42152)
      = Finite (362082879972311 / 4294967296)"
    by (simp add: double_acme_sum)
  have half: "js_div (Finite (362082879972311 / 4294967296)) (Finite 2)
      = Finite (362082879972311 / 8589934592)"
    by (simp add: double_acme_half)
  have fixed: "toFixed2_Number (Finite (362082879972311 / 8589934592))
      = Finite (5793325392362209 / 137438953472)"
    by (simp add: toFixed2_Number_def Let_def double_42151_99)
  have "avaliacaoAutomaticaSaldo ?r = \<lparr> status = saldos_iguais,
         valorReferenciaAproximado = Some (Finite (5793325392362209 / 137438953472)) \<rparr>"
    using montarIndicadores_verdict [of nfd_ascii "Some (js ''ACME Distribuidora'')" textos_acme]
      len le
    by (simp only: mn mx sub add half fixed) simp
  then show ?thesis
    using len by (simp add: pooled_acme double_42152 double_42151_99)
qed

lemma floor_log2_1000_1: "floor_log2 (100010 / 100) = 9"
  by (simp add: floor_log2_def bit_length_eval)

lemma double_1000_1: "to_double (10001 / 10) = Finite (8796972631510221 / 8796093022208)"
  using floor_log2_1000_1 by (simp add: to_double_def pow2_def round_half_even_def Let_def)

lemma floor_log2_1000: "floor_log2 1000 = 9"
  by (simp add: floor_log2_def bit_length_eval)

lemma double_1000: "to_double 1000 = Finite 1000"
  by (simp add: to_double_def floor_log2_1000 pow2_def round_half_even_def Let_def)

lemma floor_log2_boundary_diff: "floor_log2 (879609302221 / 8796093022208) = - 4"
  by (simp add: floor_log2_def bit_length_eval)

lemma double_boundary_diff:
  "to_double (879609302221 / 8796093022208) = Finite (879609302221 / 8796093022208)"
  by (simp add: to_double_def floor_log2_boundary_diff pow2_def round_half_even_def Let_def)

lemma floor_log2_0_1_exact: "floor_log2 (3602879701896397 / 36028797018963968) = - 4"
  by (simp add: floor_log2_def bit_length_eval)

lemma double_0_1_exact:
  "to_double (3602879701896397 / 36028797018963968)
     = Finite (3602879701896397 / 36028797018963968)"
  by (simp add: to_double_def floor_log2_0_1_exact pow2_def round_half_even_def Let_def)

text \<open>
  The tolerance is compared in binary64. The Number read from \<open>1.000,10\<close> minus the one
  read from \<open>1.000,00\<close> is above the Number \<open>0.1\<close>, so these two balances are reported as
  different; the Numbers read from \<open>0,10\<close> and \<open>0,00\<close> are reported as equal.
\<close>

lemma avaliar_tolerance_in_binary64:
  "status (avaliar [(js ''contas_pagar'', [to_double 1000]),
                    (js ''razao'', [to_double (100010 / 100)])]) = saldos_diferentes \<and>
   status (avaliar [(js ''contas_pagar'', [to_double 0]),
                    (js ''razao'', [to_double (1 / 10)])]) = saldos_iguais"
proof -
  have k: "js ''contas_pagar'' \<noteq> js ''razao''" by (simp add: js_def)
  have 1: "status (avaliar [(js ''contas_pagar'', [Finite 1000]),
      (js ''razao'', [Finite (8796972631510221 / 8796093022208)])]) = saldos_diferentes"
    using k
    by (simp add: avaliar_def Let_def Math_min_def Math_max_def min2_def max2_def isFinite_def
        js_sub_def double_boundary_diff double_0_1)
  have z: "to_double 0 = Finite 0" by (simp add: to_double_def)
  have 2: "status (avaliar [(js ''contas_pagar'', [Finite 0]),
      (js ''razao'', [Finite (3602879701896397 / 36028797018963968)])]) = saldos_iguais"
    using k
    by (simp add: avaliar_def Let_def Math_min_def Math_max_def min2_def max2_def isFinite_def
        js_sub_def double_0_1 double_0_1_exact)
  from 1 2 show ?thesis by (simp add: double_1000 double_1000_1 double_0_1 z)
qed


lemma extrair_limite_razao:
  "extrairLinhasFornecedor nfd_ascii (Some (js ''acme 1.000,10'')) (Some (js ''acme'')) =
     [\<lparr> linhaOriginal = js ''acme 1.000,10'', linhaNormalizada = js ''acme 1 000 10'',
        scoreMatch = Finite 1, numerosMonetarios = [js ''1.000,10''],
        ultimoNumero = Some (js ''1.000,10'') \<rparr>]"
proof -
  have a: "falsy (Some (js ''acme 1.000,10'')) = False" "falsy (Some (js ''acme'')) = False"
    by (simp_all add: falsy_def js_def)
  have b: "js ''acme'' \<noteq> []" "js ''acme 1 000 10'' \<noteq> []" "js ''1.000,10'' \<noteq> []"
    by (simp_all add: js_def)
  have l: "split_lines (js ''acme 1.000,10'') = [js ''acme 1.000,10'']" by (simp add: js_def)
  have n: "normalizarTexto nfd_ascii (Some (js ''acme 1.000,10'')) = js ''acme 1 000 10''"
    by (simp add: normalizar_eval)
  have sc: "score_linha [js ''acme''] (js ''acme 1 000 10'') = Finite 1"
    by (simp add: score_linha_def encontrados_def js_def double_1)
  have re: "regexValor_all (js ''acme 1.000,10'') = [js ''1.000,10'']"
    by (simp add: js_def regex_eval)
  have tr: "trim (js ''acme 1.000,10'') = js ''acme 1.000,10''"
    by (simp add: js_def trim_def is_space_def)
  show ?thesis
    by (simp add: extrairLinhasFornecedor_def a b normalizar_acme tokens_acme l n sc double_0_6
        js_ge_def linha_resultado_def re tr Let_def)
qed

lemma extrair_limite_contas:
  "extrairLinhasFornecedor nfd_ascii (Some (js ''acme 1.000,00'')) (Some (js ''acme'')) =
     [\<lparr> linhaOriginal = js ''acme 1.000,00'', linhaNormalizada = js ''acme 1 000 00'',
        scoreMatch = Finite 1, numerosMonetarios = [js ''1.000,00''],
        ultimoNumero = Some (js ''1.000,00'') \<rparr>]"
proof -
  have a: "falsy (Some (js ''acme 1.000,00'')) = False" "falsy (Some (js ''acme'')) = False"
    by (simp_all add: falsy_def js_def)
  have b: "js ''acme'' \<noteq> []" "js ''acme 1 000 00'' \<noteq> []" "js ''1.000,00'' \<noteq> []"
    by (simp_all add: js_def)
  have l: "split_lines (js ''acme 1.000,00'') = [js ''acme 1.000,00'']" by (simp add: js_def)
  have n: "normalizarTexto nfd_ascii (Some (js ''acme 1.000,00'')) = js ''acme 1 000 00''"
    by (simp add: normalizar_eval)
  have sc: "score_linha [js ''acme''] (js ''acme 1 000 00'') = Finite 1"
    by (simp add: score_linha_def encontrados_def js_def double_1)
  have re: "regexValor_all (js ''acme 1.000,00'') = [js ''1.000,00'']"
    by (simp add: js_def regex_eval)
  have tr: "trim (js ''acme 1.000,00'') = js ''acme 1.000,00''"
    by (simp add: js_def trim_def is_space_def)
  show ?thesis
    by (simp add: extrairLinhasFornecedor_def a b normalizar_acme tokens_acme l n sc double_0_6
        js_ge_def linha_resultado_def re tr Let_def)
qed

lemma parse_1000_10:
  "parseValorMonetario (Some (js ''1.000,10'')) = Some (Finite (8796972631510221 / 8796093022208))"
  by (simp add: parseValorMonetario_def falsy_def js_def limpo_def parseFloat_def is_digit_def
        digits_value_def Let_def isFinite_def double_1000_1)

lemma parse_1000_00: "parseValorMonetario (Some (js ''1.000,00'')) = Some (Finite 1000)"
  by (simp add: parseValorMonetario_def falsy_def js_def limpo_def parseFloat_def is_digit_def
        digits_value_def Let_def isFinite_def double_1000)

lemma saldos_limite_razao:
  "map numero (saldos_loop (extrairLinhasFornecedor nfd_ascii (Some (js ''acme 1.000,10''))
      (Some (js ''acme'')))) = [Finite (8796972631510221 / 8796093022208)]"
proof -
  have "falsy (Some (js ''1.000,10'')) = False" by (simp add: falsy_def js_def)
  then show ?thesis by (simp add: extrair_limite_razao parse_1000_10)
qed

lemma saldos_limite_contas:
  "map numero (saldos_loop (extrairLinhasFornecedor nfd_ascii (Some (js ''acme 1.000,00''))
      (Some (js ''acme'')))) = [Finite 1000]"
proof -
  have "falsy (Some (js ''1.000,00'')) = False" by (simp add: falsy_def js_def)
  then show ?thesis by (simp add: extrair_limite_contas parse_1000_00)
qed

lemma textos_limite_keys:
  "textos_limite (js ''balancete'') = None"
  "textos_limite (js ''contas_pagar'') = Some (js ''acme 1.000,00'')"
  "textos_limite (js ''razao'') = Some (js ''acme 1.000,10'')"
  by (simp_all add: textos_limite_def js_def)

lemma parsed_limite:
  "parsed_balances (montarIndicadoresFornecedor nfd_ascii (Some (js ''acme'')) textos_limite)
     (js ''balancete'') = []"
  "parsed_balances (montarIndicadoresFornecedor nfd_ascii (Some (js ''acme'')) textos_limite)
     (js ''contas_pagar'') = [Finite 1000]"
  "parsed_balances (montarIndicadoresFornecedor nfd_ascii (Some (js ''acme'')) textos_limite)
     (js ''razao'') = [Finite (8796972631510221 / 8796093022208)]"
proof -
  have f: "falsy None" "\<not> falsy (Some (js ''acme 1.000,00''))" "\<not> falsy (Some (js ''acme 1.000,10''))"
    by (simp_all add: falsy_def js_def)
  have k: "js ''balancete'' \<in> set chavesRelatorios" "js ''contas_pagar'' \<in> set chavesRelatorios"
    "js ''razao'' \<in> set chavesRelatorios"
    by (simp_all add: chavesRelatorios_def)
  show "parsed_balances (montarIndicadoresFornecedor nfd_ascii (Some (js ''acme'')) textos_limite)
     (js ''balancete'') = []"
    by (simp only: montar_parsed_balances k if_True textos_limite_keys f)
       (simp add: extrair_falsy falsy_Some_Nil)
  show "parsed_balances (montarIndicadoresFornecedor nfd_ascii (Some (js ''acme'')) textos_limite)
     (js ''contas_pagar'') = [Finite 1000]"
    by (simp only: montar_parsed_balances k if_True textos_limite_keys f if_False option.sel
        saldos_limite_contas)
  show "parsed_balances (montarIndicadoresFornecedor nfd_ascii (Some (js ''acme'')) textos_limite)
     (js ''razao'') = [Finite (8796972631510221 / 8796093022208)]"
    by (simp only: montar_parsed_balances k if_True textos_limite_keys f if_False option.sel
        saldos_limite_razao)
qed

lemma present_limite:
  "present (montarIndicadoresFornecedor nfd_ascii (Some (js ''acme'')) textos_limite)
     = [js ''contas_pagar'', js ''razao'']"
  by (simp add: present_def chavesRelatorios_def parsed_limite)

lemma pooled_limite:
  "pooled (montarIndicadoresFornecedor nfd_ascii (Some (js ''acme'')) textos_limite)
     = [Finite 1000, Finite (8796972631510221 / 8796093022208)]"
  by (simp add: pooled_def present_limite parsed_limite)

lemma avaliacao_limite:
  "avaliacaoAutomaticaSaldo
     (montarIndicadoresFornecedor nfd_ascii (Some (js ''acme'')) textos_limite)
     = \<lparr> status = saldos_diferentes, valorReferenciaAproximado = None \<rparr>"
proof -
  let ?r = "montarIndicadoresFornecedor nfd_ascii (Some (js ''acme'')) textos_limite"
  have mn: "pooled_min ?r = Finite 1000"
    by (simp add: pooled_min_def pooled_limite)
  have mx: "pooled_max ?r = Finite (8796972631510221 / 8796093022208)"
    by (simp add: pooled_max_def pooled_limite)
  have len: "\<not> length (present ?r) < 2" by (simp add: present_limite)
  have sub: "js_sub (Finite (8796972631510221 / 8796093022208)) (Finite 1000)
      = Finite (879609302221 / 8796093022208)"
    by (simp add: js_sub_def double_boundary_diff)
  have le: "\<not> js_le (Finite (879609302221 / 8796093022208)) (to_double (1 / 10))"
    by (simp add: double_0_1)
  show ?thesis
    using montarIndicadores_verdict [of nfd_ascii "Some (js ''acme'')" textos_limite] len le
    by (simp only: mn mx sub) simp
qed

text \<open>
  Claim C1 gives the verdict \<open>saldos_iguais\<close> to pooled balances with
  \<open>max - min <= 0.10\<close>, and so does the comment above the comparison in the source
  (a difference of at most 0,10 counts as the same balance). The code compares the
  Numbers: for the vendor \<open>acme\<close> with the balance \<open>1.000,10\<close> in the ledger and
  \<open>1.000,00\<close> in the payables, the amounts differ by exactly \<open>0.10\<close>, while the Number
  \<open>1000.1 - 1000\<close> is above the Number \<open>0.1\<close>, and the verdict is
  \<open>saldos_diferentes\<close>: the claim fails at this input.
\<close>

theorem montarIndicadores_tolerance_boundary:
  "parsed_balances (montarIndicadoresFornecedor nfd_ascii (Some (js ''acme'')) textos_limite)
     (js ''contas_pagar'') = [to_double 1000] \<and>
   parsed_balances (montarIndicadoresFornecedor nfd_ascii (Some (js ''acme'')) textos_limite)
     (js ''razao'') = [to_double (100010 / 100)] \<and>
   parsed_balances (montarIndicadoresFornecedor nfd_ascii (Some (js ''acme'')) textos_limite)
     (js ''balancete'') = [] \<and>
   (100010 / 100 - 1000 :: rat) = 10 / 100 \<and>
   js_sub (to_double (100010 / 100)) (to_double 1000) = Finite (879609302221 / 8796093022208) \<and>
   to_double (10 / 100) = Finite (3602879701896397 / 36028797018963968) \<and>
   (3602879701896397 / 36028797018963968 :: rat) < 879609302221 / 8796093022208 \<and>
   avaliacaoAutomaticaSaldo
     (montarIndicadoresFornecedor nfd_ascii (Some (js ''acme'')) textos_limite)
     = \<lparr> status = saldos_diferentes, valorReferenciaAproximado = None \<rparr>"
proof -
  have sub: "js_sub (Finite (8796972631510221 / 8796093022208)) (Finite 1000)
      = Finite (879609302221 / 8796093022208)"
    by (simp add: js_sub_def double_boundary_diff)
  show ?thesis
    by (simp add: parsed_limite avaliacao_limite double_1000 double_1000_1 double_0_1 sub)
qed


section \<open>montarIndicadoresFornecedor: the calls that do not return\<close>

lemma avaliar_call_eq:
  "avaliar_call limite al =
     (if 2 \<le> length al \<and>
         limite < length (concat (map (\<lambda>k. case map_of al k of Some vs \<Rightarrow> vs | None \<Rightarrow> [])
                                    (map fst al)))
      then Inl RangeError else Inr (avaliar al))"
  by (simp add: avaliar_call_def avaliar_def spread_call_def Let_def)

lemma montar_call_eq:
  "montarIndicadoresFornecedor_call limite nfd nome (Some textos) =
     (if 2 \<le> length (present (montarIndicadoresFornecedor nfd nome textos)) \<and>
         limite < length (pooled (montarIndicadoresFornecedor nfd nome textos))
      then Inl RangeError else Inr (montarIndicadoresFornecedor nfd nome textos))"
proof -
  define L where "L = (\<lambda>k. extrairLinhasFornecedor nfd
      (Some (if falsy (textos k) then [] else the (textos k))) nome)"
  define P where "P = filter (\<lambda>k. saldos_loop (L k) \<noteq> []) chavesRelatorios"
  define al where "al = map (\<lambda>k. (k, map numero (saldos_loop (L k)))) P"
  have st: "foldl (relatorio_step nfd nome textos) (Map.empty, []) chavesRelatorios =
     ((\<lambda>k. if k \<in> set chavesRelatorios
            then Some \<lparr> linhasFornecedor = L k, saldosEncontrados = saldos_loop (L k) \<rparr>
            else None), al)"
  proof -
    have "foldl (relatorio_step nfd nome textos) (Map.empty, []) chavesRelatorios =
     ((\<lambda>k. if k \<in> set chavesRelatorios
            then Some \<lparr> linhasFornecedor = L k, saldosEncontrados = saldos_loop (L k) \<rparr>
            else None),
      [] @ map (\<lambda>k. (k, map numero (saldos_loop (L k))))
             (filter (\<lambda>k. saldos_loop (L k) \<noteq> []) chavesRelatorios))"
      unfolding L_def by (rule relatorio_fold) (simp_all add: chaves_distinct)
    then show ?thesis by (simp add: al_def P_def)
  qed
  have d: "distinct P" by (simp add: P_def chaves_distinct)
  have pb: "parsed_balances (montarIndicadoresFornecedor nfd nome textos) k =
      (if k \<in> set chavesRelatorios then map numero (saldos_loop (L k)) else [])" for k
    unfolding L_def by (rule montar_parsed_balances)
  have pr: "present (montarIndicadoresFornecedor nfd nome textos) = P"
    unfolding present_def P_def by (rule filter_cong) (auto simp: pb)
  have mo: "map_of al k = Some (map numero (saldos_loop (L k)))" if "k \<in> set P" for k
    using that unfolding al_def by (induction P) auto
  have todos: "concat (map (\<lambda>k. case map_of al k of Some vs \<Rightarrow> vs | None \<Rightarrow> []) (map fst al))
      = pooled (montarIndicadoresFornecedor nfd nome textos)"
  proof -
    have f: "map fst al = P" by (simp add: al_def comp_def)
    have "map (\<lambda>k. case map_of al k of Some vs \<Rightarrow> vs | None \<Rightarrow> []) P
        = map (parsed_balances (montarIndicadoresFornecedor nfd nome textos)) P"
      by (rule map_cong) (auto simp: mo pb P_def)
    then show ?thesis unfolding f pooled_def pr by (rule arg_cong)
  qed
  have r: "montarIndicadoresFornecedor nfd nome textos =
      \<lparr> indicadoresFornecedor = (\<lambda>k. if k \<in> set chavesRelatorios
            then Some \<lparr> linhasFornecedor = L k, saldosEncontrados = saldos_loop (L k) \<rparr>
            else None), avaliacaoAutomaticaSaldo = avaliar al \<rparr>"
    by (simp add: montarIndicadoresFornecedor_def st)
  have len: "length al = length P" by (simp add: al_def)
  show ?thesis
    unfolding montarIndicadoresFornecedor_call_def option.case Let_def st snd_conv fst_conv
      avaliar_call_eq todos len
    by (simp add: pr r [symmetric])
qed

lemma split_lines_newline: "split_lines (10 # rest) = [] # split_lines rest"
  by (cases rest) auto

lemma split_lines_acme_line:
  "split_lines (js ''acme 1,00'' @ 10 # rest) = js ''acme 1,00'' # split_lines rest"
  by (simp add: js_def split_lines_newline)

lemma split_lines_linhas_acme:
  "split_lines (linhas_acme n) = replicate n (js ''acme 1,00'') @ [[]]"
  by (induction n) (simp_all add: linhas_acme_def split_lines_acme_line)

lemma linha_resultado_acme:
  "linha_resultado (js ''acme 1,00'') (js ''acme 1 00'') (Finite 1) =
     \<lparr> linhaOriginal = js ''acme 1,00'', linhaNormalizada = js ''acme 1 00'',
       scoreMatch = Finite 1, numerosMonetarios = [js ''1,00''],
       ultimoNumero = Some (js ''1,00'') \<rparr>"
proof -
  have re: "regexValor_all (js ''acme 1,00'') = [js ''1,00'']"
    by (simp add: js_def regex_eval)
  have tr: "trim (js ''acme 1,00'') = js ''acme 1,00''"
    by (simp add: js_def trim_def is_space_def)
  show ?thesis by (simp add: linha_resultado_def re tr Let_def)
qed

lemma linhas_loop_linhas_acme:
  "linhas_loop nfd_ascii [js ''acme''] (replicate n (js ''acme 1,00'') @ [[]]) =
     replicate n \<lparr> linhaOriginal = js ''acme 1,00'', linhaNormalizada = js ''acme 1 00'',
       scoreMatch = Finite 1, numerosMonetarios = [js ''1,00''],
       ultimoNumero = Some (js ''1,00'') \<rparr>"
proof (induction n)
  case 0
  have "normalizarTexto nfd_ascii (Some []) = []" by (simp add: normalizarTexto_def)
  then show ?case by simp
next
  case (Suc n)
  have n: "normalizarTexto nfd_ascii (Some (js ''acme 1,00'')) = js ''acme 1 00''"
    by (simp add: normalizar_eval)
  have b: "js ''acme 1 00'' \<noteq> []" by (simp add: js_def)
  have sc: "score_linha [js ''acme''] (js ''acme 1 00'') = Finite 1"
    by (simp add: score_linha_def encontrados_def js_def double_1)
  show ?case
    using Suc.IH by (simp add: n b sc js_ge_def double_0_6 linha_resultado_acme Let_def)
qed

lemma extrair_linhas_acme:
  "extrairLinhasFornecedor nfd_ascii (Some (linhas_acme n)) (Some (js ''acme'')) =
     replicate n \<lparr> linhaOriginal = js ''acme 1,00'', linhaNormalizada = js ''acme 1 00'',
       scoreMatch = Finite 1, numerosMonetarios = [js ''1,00''],
       ultimoNumero = Some (js ''1,00'') \<rparr>"
proof (cases n)
  case 0
  then show ?thesis by (simp add: linhas_acme_def extrairLinhasFornecedor_def falsy_def)
next
  case (Suc m)
  have a: "\<not> falsy (Some (linhas_acme n))" "\<not> falsy (Some (js ''acme''))"
    using Suc by (simp_all add: falsy_def js_def linhas_acme_def)
  have b: "js ''acme'' \<noteq> []" by (simp add: js_def)
  show ?thesis
    by (simp add: extrairLinhasFornecedor_def a b normalizar_acme tokens_acme
        split_lines_linhas_acme linhas_loop_linhas_acme Let_def)
qed

lemma parse_1_00: "parseValorMonetario (Some (js ''1,00'')) = Some (Finite 1)"
  by (simp add: parseValorMonetario_def falsy_def js_def limpo_def parseFloat_def is_digit_def
        digits_value_def Let_def isFinite_def double_1)

lemma saldos_linhas_acme:
  "map numero (saldos_loop (replicate n
     \<lparr> linhaOriginal = js ''acme 1,00'', linhaNormalizada = js ''acme 1 00'',
       scoreMatch = Finite 1, numerosMonetarios = [js ''1,00''],
       ultimoNumero = Some (js ''1,00'') \<rparr>)) = replicate n (Finite 1)"
proof -
  have "falsy (Some (js ''1,00'')) = False" by (simp add: falsy_def js_def)
  then show ?thesis by (induction n) (simp_all add: parse_1_00)
qed

lemma textos_linhas_keys:
  "textos_linhas n (js ''balancete'') = None"
  "textos_linhas n (js ''contas_pagar'') = Some (linhas_acme n)"
  "textos_linhas n (js ''razao'') = Some (linhas_acme n)"
  by (simp_all add: textos_linhas_def js_def)

lemma parsed_linhas:
  "parsed_balances (montarIndicadoresFornecedor nfd_ascii (Some (js ''acme'')) (textos_linhas n))
     (js ''balancete'') = []"
  "parsed_balances (montarIndicadoresFornecedor nfd_ascii (Some (js ''acme'')) (textos_linhas n))
     (js ''contas_pagar'') = replicate n (Finite 1)"
  "parsed_balances (montarIndicadoresFornecedor nfd_ascii (Some (js ''acme'')) (textos_linhas n))
     (js ''razao'') = replicate n (Finite 1)"
proof -
  have k: "js ''balancete'' \<in> set chavesRelatorios" "js ''contas_pagar'' \<in> set chavesRelatorios"
    "js ''razao'' \<in> set chavesRelatorios"
    by (simp_all add: chavesRelatorios_def)
  have t: "(if falsy (Some (linhas_acme n)) then [] else the (Some (linhas_acme n))) = linhas_acme n"
    by (simp add: falsy_def)
  show "parsed_balances (montarIndicadoresFornecedor nfd_ascii (Some (js ''acme'')) (textos_linhas n))
     (js ''balancete'') = []"
    by (simp only: montar_parsed_balances k if_True textos_linhas_keys)
       (simp add: extrair_falsy falsy_Some_Nil falsy_def)
  show "parsed_balances (montarIndicadoresFornecedor nfd_ascii (Some (js ''acme'')) (textos_linhas n))
     (js ''contas_pagar'') = replicate n (Finite 1)"
    by (simp only: montar_parsed_balances k if_True textos_linhas_keys t extrair_linhas_acme
        saldos_linhas_acme)
  show "parsed_balances (montarIndicadoresFornecedor nfd_ascii (Some (js ''acme'')) (textos_linhas n))
     (js ''razao'') = replicate n (Finite 1)"
    by (simp only: montar_parsed_balances k if_True textos_linhas_keys t extrair_linhas_acme
        saldos_linhas_acme)
qed

lemma present_linhas:
  "present (montarIndicadoresFornecedor nfd_ascii (Some (js ''acme'')) (textos_linhas (Suc n)))
     = [js ''contas_pagar'', js ''razao'']"
  by (simp add: present_def chavesRelatorios_def parsed_linhas)

lemma pooled_linhas:
  "pooled (montarIndicadoresFornecedor nfd_ascii (Some (js ''acme'')) (textos_linhas (Suc n)))
     = replicate (Suc n) (Finite 1) @ replicate (Suc n) (Finite 1)"
  by (simp add: pooled_def present_linhas parsed_linhas del: replicate.simps)

lemma montar_call_degenerate:
  assumes "falsy nome \<or> (\<forall>k\<in>set chavesRelatorios. falsy (textos k))"
  shows "montarIndicadoresFornecedor_call limite nfd nome (Some textos) =
     Inr \<lparr> indicadoresFornecedor =
             (\<lambda>k. if k \<in> set chavesRelatorios
                  then Some \<lparr> linhasFornecedor = [], saldosEncontrados = [] \<rparr> else None),
           avaliacaoAutomaticaSaldo =
             \<lparr> status = dados_insuficientes, valorReferenciaAproximado = None \<rparr> \<rparr>"
proof -
  have L: "extrairLinhasFornecedor nfd
        (Some (if falsy (textos k) then [] else the (textos k))) nome = []"
    if "k \<in> set chavesRelatorios" for k
    using that assms by (auto simp: extrair_falsy falsy_Some_Nil)
  have "present (montarIndicadoresFornecedor nfd nome textos) = []"
    unfolding montar_present by (simp add: L)
  then show ?thesis
    unfolding montar_call_eq using montar_empty [of nfd textos nome] L by simp
qed

text \<open>
  Claim C8 says that degenerate inputs give defined results and that no operation of
  the core raises on any input. The results hold as stated (\<open>degenerate_inputs\<close>, and
  \<open>montar_call_degenerate\<close> for the call), but \<open>montarIndicadoresFornecedor\<close> can raise.
  With the mapping \<open>null\<close> it raises a \<open>TypeError\<close>. With a mapping that is an
  object it returns unless at least two sources have a balance and the pooled balances
  are more than one call takes as arguments, where \<open>Math.min(...todosValores)\<close> raises a
  \<open>RangeError\<close>; whatever that number \<open>limite\<close> is, two sources of \<open>limite + 1\<close> lines
  each, every line naming the vendor with a balance, pool \<open>2 * (limite + 1)\<close> balances
  and make the call raise. The claim fails at these inputs.
\<close>

theorem montarIndicadoresFornecedor_raises:
  "montarIndicadoresFornecedor_call limite nfd nome None = Inl TypeError \<and>
   montarIndicadoresFornecedor_call limite nfd nome (Some textos) =
     (if 2 \<le> length (present (montarIndicadoresFornecedor nfd nome textos)) \<and>
         limite < length (pooled (montarIndicadoresFornecedor nfd nome textos))
      then Inl RangeError else Inr (montarIndicadoresFornecedor nfd nome textos)) \<and>
   length (pooled (montarIndicadoresFornecedor nfd_ascii (Some (js ''acme''))
      (textos_linhas (Suc limite)))) = 2 * Suc limite \<and>
   montarIndicadoresFornecedor_call limite nfd_ascii (Some (js ''acme''))
      (Some (textos_linhas (Suc limite))) = Inl RangeError"
proof -
  have 1: "montarIndicadoresFornecedor_call limite nfd nome None = Inl TypeError"
    by (simp add: montarIndicadoresFornecedor_call_def)
  have 3: "length (pooled (montarIndicadoresFornecedor nfd_ascii (Some (js ''acme''))
      (textos_linhas (Suc limite)))) = 2 * Suc limite"
    by (simp add: pooled_linhas del: replicate.simps)
  have 4: "montarIndicadoresFornecedor_call limite nfd_ascii (Some (js ''acme''))
      (Some (textos_linhas (Suc limite))) = Inl RangeError"
    unfolding montar_call_eq 3 by (simp add: present_linhas)
  from 1 3 4 show ?thesis using montar_call_eq [of limite nfd nome textos] by simp
qed


section \<open>The units that reach toLowerCase and parseFloat\<close>

lemma replace_runs_units: "c \<in> set (replace_runs p xs) \<Longrightarrow> c = 32 \<or> \<not> p c"
  by (induction p xs rule: replace_runs.induct) (auto split: if_splits)

lemma trim_subset: "set (trim s) \<subseteq> set s"
proof -
  have "set (dropWhile is_space (rev (dropWhile is_space s))) \<subseteq> set (rev (dropWhile is_space s))"
    by (auto dest: set_dropWhileD)
  also have "\<dots> \<subseteq> set s" by (auto dest: set_dropWhileD)
  finally show ?thesis by (simp add: trim_def)
qed

lemma before_lowercase_alphabet:
  assumes "c \<in> set (trim (map (\<lambda>c. if is_word c \<or> is_space c then c else 32)
      (replace_runs is_space xs)))"
  shows "is_word c \<or> c = 32"
proof -
  from assms trim_subset obtain d where d: "d \<in> set (replace_runs is_space xs)"
    and c: "c = (if is_word d \<or> is_space d then d else 32)"
    by fastforce
  from d have "d = 32 \<or> \<not> is_space d" by (rule replace_runs_units)
  with c show ?thesis by (auto split: if_splits)
qed

lemma normalizarTexto_alphabet:
  assumes "c \<in> set (normalizarTexto nfd s)"
  shows "is_digit c \<or> (97 \<le> c \<and> c \<le> 122) \<or> c = 95 \<or> c = 32"
proof -
  from assms obtain x where s: "s = Some x" and "x \<noteq> []"
    by (cases s) (auto simp: normalizarTexto_def split: if_splits)
  with assms obtain d where
    d: "d \<in> set (trim (map (\<lambda>c. if is_word c \<or> is_space c then c else 32)
      (replace_runs is_space (replace_runs is_crlf (filter (\<lambda>c. \<not> is_mark c) (nfd x))))))"
    and c: "c = lower_unit d"
    by (auto simp: normalizarTexto_def toLowerCase_def)
  from d have "is_word d \<or> d = 32" by (rule before_lowercase_alphabet)
  with c show ?thesis by (auto simp: is_word_def is_digit_def lower_unit_def)
qed

lemma replace_first_units: "c \<in> set (replace_first a b s) \<Longrightarrow> c = b \<or> c \<in> set s"
  by (induction s) (auto split: if_splits)

lemma limpo_alphabet:
  assumes "c \<in> set (limpo s)"
  shows "is_digit c \<or> c = 44 \<or> c = 45 \<or> c = 46"
  using replace_first_units [OF assms [unfolded limpo_def]] by auto


section \<open>The scan for monetary values\<close>

lemma match_digits_none: "s = [] \<or> \<not> is_digit (hd s) \<Longrightarrow> match_digits (Suc 0) 3 s = []"
  by (cases s) (auto simp: match_digits_def)

lemma match_valor_nondigit: "s = [] \<or> \<not> is_digit (hd s) \<Longrightarrow> match_valor s = None"
  by (simp add: match_valor_def candidatos_valor_def match_digits_none)

lemma regexValor_skip:
  "list_all (\<lambda>c. \<not> is_digit c) pre \<Longrightarrow> regexValor_all (pre @ s) = regexValor_all s"
proof (induction pre)
  case Nil
  then show ?case by simp
next
  case (Cons c pre)
  then have "match_valor (c # pre @ s) = None" by (intro match_valor_nondigit) simp
  then have "regexValor_all ((c # pre) @ s) = regexValor_all (pre @ s)"
    by (subst regexValor_all.simps) simp
  with Cons show ?case by simp
qed

lemma not_group_at_digit: "is_digit c \<Longrightarrow> \<not> group_at (c # s)"
  by (auto simp: group_at_def is_digit_def)

lemma not_tail_at_digit: "is_digit c \<Longrightarrow> \<not> tail_at (c # s)"
  by (auto simp: tail_at_def is_digit_def)

lemma match_valor_long_run:
  assumes "is_digit a" "is_digit b" "is_digit c" "is_digit d"
  shows "match_valor (a # b # c # d # s) = None"
proof -
  have m: "match_digits (Suc 0) 3 (a # b # c # d # s) = [3, 2, 1]"
    using assms by (simp add: match_digits_def upt_rec)
  have g: "groups_star (b # c # d # s) = [0]" "groups_star (c # d # s) = [0]"
    "groups_star (d # s) = [0]"
    using assms by (subst groups_star.simps, simp add: not_group_at_digit)+
  show ?thesis
    using assms by (simp add: match_valor_def candidatos_valor_def m g not_tail_at_digit)
qed

lemma match_valor_three:
  assumes "is_digit a" "is_digit b" "is_digit c" "is_digit x" "is_digit y"
  shows "match_valor (a # b # c # 44 # x # y # s) = Some 6"
proof -
  have m: "match_digits (Suc 0) 3 (a # b # c # 44 # x # y # s) = [3, 2, 1]"
    using assms by (simp add: match_digits_def upt_rec)
  have g: "groups_star (44 # x # y # s) = [0]"
    by (subst groups_star.simps) (simp add: group_at_def)
  have t: "tail_at (44 # x # y # s)"
    using assms by (simp add: tail_at_def match_digits_def upt_rec)
  show ?thesis
    by (simp add: match_valor_def candidatos_valor_def m g t)
qed

lemma regexValor_run:
  assumes "list_all is_digit ds" and "3 \<le> length ds" and "is_digit x" and "is_digit y"
  shows "regexValor_all (ds @ 44 # x # y # s) =
     (drop (length ds - 3) ds @ [44, x, y]) # regexValor_all s"
  using assms(1,2)
proof (induction ds)
  case Nil
  then show ?case by simp
next
  case (Cons a ds)
  show ?case
  proof (cases "length ds = 2")
    case True
    then obtain b c where ds: "ds = [b, c]"
      by (cases ds; cases "tl ds") auto
    with Cons.prems have dig: "is_digit a" "is_digit b" "is_digit c" by simp_all
    have "match_valor (a # b # c # 44 # x # y # s) = Some 6"
      using dig assms(3,4) by (rule match_valor_three)
    then show ?thesis
      by (subst regexValor_all.simps) (simp add: ds)
  next
    case False
    with Cons.prems have len: "3 \<le> length ds" by simp
    then obtain b c d ds' where ds: "ds = b # c # d # ds'"
      by (cases ds; cases "tl ds"; cases "tl (tl ds)") auto
    with Cons.prems have dig: "is_digit a" "is_digit b" "is_digit c" "is_digit d" by simp_all
    have "match_valor (a # b # c # d # (ds' @ 44 # x # y # s)) = None"
      using dig by (rule match_valor_long_run)
    then have "regexValor_all ((a # ds) @ 44 # x # y # s) = regexValor_all (ds @ 44 # x # y # s)"
      by (subst regexValor_all.simps) (simp add: ds)
    also have "\<dots> = (drop (length ds - 3) ds @ [44, x, y]) # regexValor_all s"
      using Cons.prems len by (intro Cons.IH) simp_all
    also have "drop (length ds - 3) ds = drop (length (a # ds) - 3) (a # ds)"
    proof -
      have "length (a # ds) - 3 = Suc (length ds - 3)" using len by simp
      then show ?thesis by (simp only: drop_Suc_Cons)
    qed
    finally show ?thesis .
  qed
qed


text \<open>
  Claim C10. The pattern for monetary values has no boundary anchor. When a run of more
  than three digits stands before the comma and two digits, the scan (coming to the run
  over units that are not digits) captures the last three digits of the run with the
  comma and the two digits: a proper suffix of the number. On the accepted line
  \<open>"acme 1234,56"\<close> the captured value is \<open>"234,56"\<close>; it becomes the last value of the
  line and the parsed balance \<open>234.56\<close>.
\<close>

theorem regexValor_truncates_long_runs:
  "(list_all (\<lambda>c. \<not> is_digit c) pre \<and> list_all is_digit ds \<and> 3 < length ds \<and>
      is_digit x \<and> is_digit y \<longrightarrow>
      regexValor_all (pre @ ds @ 44 # x # y # s) =
        (drop (length ds - 3) ds @ [44, x, y]) # regexValor_all s) \<and>
   map numerosMonetarios
     (extrairLinhasFornecedor nfd_ascii (Some (js ''acme 1234,56'')) (Some (js ''acme'')))
     = [[js ''234,56'']] \<and>
   map ultimoNumero
     (extrairLinhasFornecedor nfd_ascii (Some (js ''acme 1234,56'')) (Some (js ''acme'')))
     = [Some (js ''234,56'')] \<and>
   map numero (saldos_loop
     (extrairLinhasFornecedor nfd_ascii (Some (js ''acme 1234,56'')) (Some (js ''acme''))))
     = [to_double (23456 / 100)]"
proof -
  have "regexValor_all (pre @ ds @ 44 # x # y # s) =
        (drop (length ds - 3) ds @ [44, x, y]) # regexValor_all s"
    if "list_all (\<lambda>c. \<not> is_digit c) pre" "list_all is_digit ds" "3 < length ds"
      "is_digit x" "is_digit y"
    using that by (simp add: regexValor_skip regexValor_run)
  moreover have "falsy (Some (js ''234,56'')) = False" by (simp add: falsy_def js_def)
  ultimately show ?thesis by (simp add: extrair_acme parse_234_56)
qed

theorem regexValor_truncates_long_runs_witness:
  "list_all (\<lambda>c. \<not> is_digit c) (js ''acme '') \<and> list_all is_digit (js ''1234'') \<and>
   3 < length (js ''1234'') \<and> is_digit 53 \<and> is_digit 54 \<and>
   regexValor_all (js ''acme 1234,56'') = [js ''234,56'']"
proof -
  have h: "list_all (\<lambda>c. \<not> is_digit c) (js ''acme '')" "list_all is_digit (js ''1234'')"
    "3 < length (js ''1234'')" "is_digit 53" "is_digit 54"
    by (simp_all add: js_def is_digit_def)
  have e: "regexValor_all [] = []" by (subst regexValor_all.simps) simp
  have "regexValor_all (js ''acme '' @ js ''1234'' @ 44 # 53 # 54 # []) =
      (drop (length (js ''1234'') - 3) (js ''1234'') @ [44, 53, 54]) # regexValor_all []"
    using regexValor_truncates_long_runs [of "js ''acme ''" "js ''1234''" 53 54 "[]"] h
    by blast
  then have "regexValor_all (js ''acme 1234,56'') = [js ''234,56'']"
    by (simp add: e js_def)
  with h show ?thesis by blast
qed


section \<open>The rounding to binary64\<close>

lemma bit_length_bounds:
  "0 < n \<Longrightarrow> 2 ^ nat (bit_length n - 1) \<le> n \<and> n < 2 ^ nat (bit_length n)"
proof (induction n rule: bit_length.induct)
  case (1 n)
  show ?case
  proof (cases "n = 1")
    case True
    then show ?thesis by (simp add: bit_length_1)
  next
    case False
    with "1.prems" have half: "0 < n div 2" by simp
    have nle: "\<not> n \<le> 0" using "1.prems" by simp
    from "1.IH" [OF nle half]
    have IH: "2 ^ nat (bit_length (n div 2) - 1) \<le> n div 2"
      "n div 2 < 2 ^ nat (bit_length (n div 2))" by simp_all
    have b: "bit_length n = bit_length (n div 2) + 1"
      using nle by (subst bit_length.simps) simp
    have pos: "0 < bit_length (n div 2)"
      using half bit_length_nonneg [of "n div 2 div 2"]
      by (subst bit_length.simps) simp
    have "nat (bit_length n - 1) = Suc (nat (bit_length (n div 2) - 1))"
      using pos by (simp add: b nat_diff_distrib Suc_nat_eq_nat_zadd1)
    then have lo: "(2::int) ^ nat (bit_length n - 1) = 2 * 2 ^ nat (bit_length (n div 2) - 1)"
      by simp
    have "nat (bit_length n) = Suc (nat (bit_length (n div 2)))"
      using pos by (simp add: b Suc_nat_eq_nat_zadd1)
    then have hi: "(2::int) ^ nat (bit_length n) = 2 * 2 ^ nat (bit_length (n div 2))"
      by simp
    have "2 * (n div 2) \<le> n" by simp
    with IH(1) have 1: "2 ^ nat (bit_length n - 1) \<le> n" unfolding lo by linarith
    have "n < 2 * (n div 2) + 2" by presburger
    moreover have "n div 2 + 1 \<le> 2 ^ nat (bit_length (n div 2))" using IH(2) by simp
    ultimately have 2: "n < 2 ^ nat (bit_length n)" unfolding hi by linarith
    from 1 2 show ?thesis by simp
  qed
qed

lemma round_half_even_nearest: "\<bar>x - of_int (round_half_even x)\<bar> \<le> 1 / 2"
proof -
  have "of_int \<lfloor>x\<rfloor> \<le> x" and "x < of_int \<lfloor>x\<rfloor> + 1" by linarith+
  then show ?thesis
    by (auto simp: round_half_even_def Let_def abs_le_iff)
qed


lemma floor_log2_bounds:
  assumes "0 < q"
  shows "pow2 (floor_log2 q) \<le> q \<and> q < pow2 (floor_log2 q + 1)"
proof (cases "1 \<le> q")
  case True
  define f where "f = \<lfloor>q\<rfloor>"
  have f: "0 < f" using True by (simp add: f_def)
  have b: "2 ^ nat (bit_length f - 1) \<le> f" "f < 2 ^ nat (bit_length f)"
    using bit_length_bounds [OF f] by simp_all
  have bpos: "0 < bit_length f"
    using f bit_length_nonneg [of "f div 2"] by (subst bit_length.simps) simp
  have fl: "floor_log2 q = bit_length f - 1" using True by (simp add: floor_log2_def f_def)
  have "(of_int (2 ^ nat (bit_length f - 1)) :: rat) \<le> of_int f"
    using b(1) by (simp only: of_int_le_iff)
  also have "(of_int f :: rat) \<le> q" by (simp add: f_def)
  finally have lo: "pow2 (floor_log2 q) \<le> q"
    using bpos by (simp add: fl pow2_def)
  have "f + 1 \<le> 2 ^ nat (bit_length f)" using b(2) by simp
  then have "(of_int (f + 1) :: rat) \<le> of_int (2 ^ nat (bit_length f))"
    by (simp only: of_int_le_iff)
  moreover have "q < of_int (f + 1)" unfolding f_def by linarith
  ultimately have hi: "q < pow2 (floor_log2 q + 1)"
    using bpos by (simp add: fl pow2_def)
  from lo hi show ?thesis by simp
next
  case False
  define c where "c = - \<lfloor>- (1 / q)\<rfloor>"
  have r: "1 < 1 / q" using assms False by simp
  have c_ceil: "c = \<lceil>1 / q\<rceil>" by (simp add: c_def ceiling_def)
  have c_ge: "1 / q \<le> of_int c" by (simp add: c_ceil)
  have c_lt: "of_int c - 1 < 1 / q" unfolding c_ceil by linarith
  have "(1::rat) < of_int c" using r c_ge by linarith
  then have c1: "0 < c - 1" by simp
  define k where "k = bit_length (c - 1)"
  have b: "2 ^ nat (k - 1) \<le> c - 1" "c - 1 < 2 ^ nat k"
    using bit_length_bounds [OF c1] by (simp_all add: k_def)
  have kpos: "0 < k"
    unfolding k_def using c1 bit_length_nonneg [of "(c - 1) div 2"]
    by (subst bit_length.simps) simp
  have fl: "floor_log2 q = - k" using False by (simp add: floor_log2_def c_def k_def)
  have "c \<le> 2 ^ nat k" using b(2) by simp
  then have "(of_int c :: rat) \<le> 2 ^ nat k"
    by (metis of_int_le_iff of_int_numeral of_int_power)
  with c_ge have "1 / q \<le> 2 ^ nat k" by linarith
  then have "1 \<le> q * 2 ^ nat k" using assms by (simp add: field_simps)
  then have lo: "pow2 (floor_log2 q) \<le> q"
    using kpos by (simp add: fl pow2_def field_simps)
  have "(2::rat) ^ nat (k - 1) \<le> of_int (c - 1)"
    using b(1) by (metis of_int_le_iff of_int_numeral of_int_power)
  with c_lt have "2 ^ nat (k - 1) < 1 / q" by simp
  then have lt: "q * 2 ^ nat (k - 1) < 1" using assms by (simp add: field_simps)
  have hi: "q < pow2 (floor_log2 q + 1)"
  proof (cases "k = 1")
    case True
    with lt show ?thesis by (simp add: fl pow2_def)
  next
    case False
    with kpos have "1 < k" by simp
    then have "\<not> 0 \<le> - k + 1" and "nat (- (- k + 1)) = nat (k - 1)" by simp_all
    with lt show ?thesis by (simp add: fl pow2_def field_simps)
  qed
  from lo hi show ?thesis by simp
qed


lemma pow2_pos: "0 < pow2 e"
  by (simp add: pow2_def)

lemma pow2_add: "pow2 (a + b) = pow2 a * pow2 b"
proof -
  have "pow2 e = 2 powi e" for e
    by (simp add: pow2_def power_int_def power_one_over)
  then show ?thesis by (simp add: power_int_add)
qed

lemma pow2_mono: "a \<le> b \<Longrightarrow> pow2 a \<le> pow2 b"
proof -
  assume "a \<le> b"
  then obtain n where b: "b = a + int n" by (metis zle_iff_zadd)
  have "1 \<le> pow2 (int n)" by (simp add: pow2_def)
  then have "pow2 a * 1 \<le> pow2 a * pow2 (int n)"
    using pow2_pos [of a] by (intro mult_left_mono) simp_all
  then show ?thesis by (simp add: b pow2_add)
qed

text \<open>
  \<open>to_double\<close> returns a value of the binary64 format, and the nearest one: a finite
  result is an integer of at most 53 bits times a power of two from \<open>2 ^ -1074\<close> on, and
  it is within half a unit of that power of the rational it rounds.
\<close>

lemma to_double_format:
  assumes "to_double q = Finite r"
  shows "\<exists>m e. r = of_int m * pow2 e \<and> \<bar>m\<bar> \<le> 2 ^ 53 \<and> - 1074 \<le> e \<and>
           \<bar>r - q\<bar> \<le> pow2 e / 2"
proof (cases "q = 0")
  case True
  with assms have "r = 0" by (simp add: to_double_def)
  then have "r = of_int 0 * pow2 0 \<and> \<bar>0::int\<bar> \<le> 2 ^ 53 \<and> - 1074 \<le> (0::int) \<and>
      \<bar>r - q\<bar> \<le> pow2 0 / 2"
    using True by (simp add: pow2_def)
  then show ?thesis by blast
next
  case False
  define a where "a = \<bar>q\<bar>"
  define e where "e = max (floor_log2 a - 52) (- 1074)"
  define x where "x = a / pow2 e"
  define m where "m = round_half_even x"
  have a: "0 < a" using False by (simp add: a_def)
  have unfold: "to_double q =
      (if pow2 1024 \<le> of_int m * pow2 e then (if 0 < q then PosInf else NegInf)
       else Finite (if 0 < q then of_int m * pow2 e else - (of_int m * pow2 e)))"
    using False by (simp add: to_double_def Let_def a_def e_def x_def m_def)
  with assms have r: "r = (if 0 < q then of_int m * pow2 e else - (of_int m * pow2 e))"
    by (auto split: if_splits)
  have e_ge: "- 1074 \<le> e" by (simp add: e_def)
  have "a < pow2 (floor_log2 a + 1)" using floor_log2_bounds [OF a] by simp
  also have "pow2 (floor_log2 a + 1) \<le> pow2 (e + 53)"
    by (rule pow2_mono) (simp add: e_def)
  also have "pow2 (e + 53) = pow2 e * 2 ^ 53" by (simp add: pow2_add) (simp add: pow2_def)
  finally have "x < 2 ^ 53" using pow2_pos [of e] by (simp add: x_def field_simps)
  then have "x \<le> of_int (2 ^ 53)" by simp
  then have m_le: "m \<le> 2 ^ 53" unfolding m_def by (rule round_half_even_le)
  have "0 \<le> x" using a pow2_pos [of e] by (simp add: x_def)
  then have m_ge: "0 \<le> m" unfolding m_def by (rule round_half_even_nonneg)
  have "\<bar>x - of_int m\<bar> \<le> 1 / 2" unfolding m_def by (rule round_half_even_nearest)
  then have "\<bar>x - of_int m\<bar> * pow2 e \<le> 1 / 2 * pow2 e"
    using pow2_pos [of e] by (intro mult_right_mono) simp_all
  moreover have "\<bar>x - of_int m\<bar> * pow2 e = \<bar>a - of_int m * pow2 e\<bar>"
  proof -
    have "\<bar>x - of_int m\<bar> * pow2 e = \<bar>(x - of_int m) * pow2 e\<bar>"
      using pow2_pos [of e] by (simp add: abs_mult)
    also have "(x - of_int m) * pow2 e = a - of_int m * pow2 e"
      using pow2_pos [of e] by (simp add: x_def field_simps)
    finally show ?thesis .
  qed
  ultimately have near: "\<bar>a - of_int m * pow2 e\<bar> \<le> pow2 e / 2" by simp
  show ?thesis
  proof (cases "0 < q")
    case True
    then have "r = of_int m * pow2 e" and "a = q" by (simp_all add: r a_def)
    with near m_le m_ge e_ge have "r = of_int m * pow2 e \<and> \<bar>m\<bar> \<le> 2 ^ 53 \<and> - 1074 \<le> e \<and>
        \<bar>r - q\<bar> \<le> pow2 e / 2"
      by (simp add: abs_minus_commute)
    then show ?thesis by blast
  next
    case neg: False
    then have rm: "r = of_int (- m) * pow2 e" and aq: "a = - q"
      using False by (simp_all add: r a_def)
    have "r - q = a - of_int m * pow2 e" by (simp add: rm aq)
    with near have "\<bar>r - q\<bar> \<le> pow2 e / 2" by simp
    with rm have "r = of_int (- m) * pow2 e \<and> \<bar>- m\<bar> \<le> 2 ^ 53 \<and> - 1074 \<le> e \<and>
        \<bar>r - q\<bar> \<le> pow2 e / 2"
      using m_le m_ge e_ge by simp
    then show ?thesis by blast
  qed
qed


end
